theory Spec2Isabelle
  imports Main "HOL-Library.Multiset"
begin

section \<open>The chatbot API: store, Oracle and request handlers\<close>

text \<open>
  The program is a single Express application (\<^verbatim>\<open>index.ts\<close>). Its handlers are
  sequences of awaited calls to two external collaborators: the Prisma client (the store)
  and the Gemini client (the Oracle). Every awaited call may reject; a rejection skips the
  rest of the enclosing \<^verbatim>\<open>try\<close> block, but what was written before it stays written.
  The model therefore threads one state through every call and gives each call a result of
  type \<open>error + 'a\<close>.
\<close>

subsection \<open>Rows of the three tables\<close>

text \<open>
  Modelled from the spec: the Prisma schema is not part of the sources, so the columns are
  the ones of the Swagger schemas and of the queries in \<^verbatim>\<open>index.ts\<close>. The columns
  \<^verbatim>\<open>id\<close> and \<^verbatim>\<open>createdAt\<close> occur in all three tables and carry a suffix here
  (\<open>_k\<close> for ApiKey, \<open>_s\<close> for ChatSession, \<open>_m\<close> for Message).
\<close>

record apiKey =
  id_k :: int
  key :: string
  name :: string
  createdAt_k :: nat
  active :: bool

record chatSession =
  id_s :: int
  title :: "string option"
  createdAt_s :: nat
  apiKeyId :: int

record message =
  id_m :: int
  chatSessionId :: int
  content :: string
  sender :: string
  createdAt_m :: nat

subsection \<open>The outside world\<close>

datatype error = PersistenceError | OracleError

text \<open>One entry of the transcript handed to the model: \<^verbatim>\<open>{ role, parts: [{ text }] }\<close>.\<close>

record chatContent =
  role :: string
  parts :: "string list"

text \<open>The calls the program issues to the store and to the Oracle, with their arguments.\<close>

datatype store_call =
    ApiKey_findUnique string
  | ApiKey_create string string
  | ChatSession_create int
  | ChatSession_findUnique int
  | ChatSession_update int string
  | ChatSession_findFirst int int
  | ChatSession_findMany int
  | Message_create string string int
  | Message_findMany int

datatype oracle_call =
    GenerateContent "chatContent list"
  | SendMessage "chatContent list" string

text \<open>
  What the surroundings decide during one request: what the two Oracle calls answer
  (\<open>Inl\<close> when the call rejects, otherwise the \<^verbatim>\<open>text\<close> of the result, which may be
  undefined), which store calls fail (by their position in the sequence of all store calls
  ever issued), and the 32 random bytes of a new key in hexadecimal.
\<close>

record env =
  genContent :: "chatContent list \<Rightarrow> error + string option"
  chatSend :: "chatContent list \<Rightarrow> string \<Rightarrow> error + string option"
  faultAt :: "nat \<Rightarrow> bool"
  randomHex :: string

text \<open>
  The state: the three tables, the store's clock, and the two logs of calls issued so far.
  The logs are not data of the program; they record which external calls a handler made,
  so that ``before any store access'' and ``what the Oracle receives'' are statements about
  the model.

  Modelled from the spec: \<^verbatim>\<open>createdAt\<close> defaults to the store's current time, and the
  spec (4.4) has the store give each new row a strictly larger timestamp than the existing
  ones. The clock is a counter that every insertion reads and advances.
\<close>

record state =
  apiKeys :: "apiKey list"
  chatSessions :: "chatSession list"
  messages :: "message list"
  clock :: nat
  storeCalls :: "store_call list"
  oracleCalls :: "oracle_call list"

type_synonym 'a promise = "state \<Rightarrow> (error + 'a) \<times> state"

definition resolve :: "'a \<Rightarrow> 'a promise" where
  "resolve x = (\<lambda>s. (Inr x, s))"

text \<open>\<^verbatim>\<open>const x = await m; f x\<close>: a rejection of \<open>m\<close> skips \<open>f\<close> and keeps the state.\<close>

definition await :: "'a promise \<Rightarrow> ('a \<Rightarrow> 'b promise) \<Rightarrow> 'b promise" where
  "await m f = (\<lambda>s. case m s of (Inl e, s') \<Rightarrow> (Inl e, s') | (Inr x, s') \<Rightarrow> f x s')"

text \<open>\<^verbatim>\<open>try { m } catch (error) { h }\<close>.\<close>

definition tryCatch :: "'a promise \<Rightarrow> (error \<Rightarrow> 'a promise) \<Rightarrow> 'a promise" where
  "tryCatch m h = (\<lambda>s. case m s of (Inl e, s') \<Rightarrow> h e s' | (Inr x, s') \<Rightarrow> (Inr x, s'))"

subsection \<open>The Prisma client\<close>

text \<open>
  Every store call is logged, also when it fails. It fails with \<open>PersistenceError\<close> when
  the surroundings say so, or when the query itself violates a constraint.
\<close>

definition storeCall :: "env \<Rightarrow> store_call \<Rightarrow> 'a promise \<Rightarrow> 'a promise" where
  "storeCall e c run = (\<lambda>s.
     if faultAt e (length (storeCalls s))
     then (Inl PersistenceError, s\<lparr>storeCalls := storeCalls s @ [c]\<rparr>)
     else run (s\<lparr>storeCalls := storeCalls s @ [c]\<rparr>))"

text \<open>An auto-increment column: one more than every identifier in the table, and at least 1.\<close>

definition nextId :: "int list \<Rightarrow> int" where
  "nextId ids = foldr max ids 0 + 1"

text \<open>\<^verbatim>\<open>prisma.apiKey.findUnique({ where: { key } })\<close>\<close>

definition apiKey_findUnique :: "env \<Rightarrow> string \<Rightarrow> apiKey option promise" where
  "apiKey_findUnique e k =
     storeCall e (ApiKey_findUnique k) (\<lambda>s. (Inr (find (\<lambda>r. key r = k) (apiKeys s)), s))"

text \<open>
  \<^verbatim>\<open>prisma.apiKey.create({ data: { key, name } })\<close>. The column \<^verbatim>\<open>key\<close> is unique
  (it is the argument of \<^verbatim>\<open>findUnique\<close>). Modelled from the spec: a new key is active
  (4.1, \<^verbatim>\<open>active=true\<close>); the default is declared in the absent schema.
\<close>

definition apiKey_create :: "env \<Rightarrow> string \<Rightarrow> string \<Rightarrow> apiKey promise" where
  "apiKey_create e k n =
     storeCall e (ApiKey_create k n) (\<lambda>s.
       if k \<in> set (map key (apiKeys s)) then (Inl PersistenceError, s)
       else
         let r = \<lparr>id_k = nextId (map id_k (apiKeys s)), key = k, name = n,
                  createdAt_k = clock s, active = True\<rparr>
         in (Inr r, s\<lparr>apiKeys := apiKeys s @ [r], clock := Suc (clock s)\<rparr>))"

text \<open>
  \<^verbatim>\<open>prisma.chatSession.create({ data: { apiKeyId } })\<close>: the title starts as null.
  Modelled from the spec: the owning tenant is a foreign key (3), so the insertion fails
  when no ApiKey row has that id.
\<close>

definition chatSession_create :: "env \<Rightarrow> int \<Rightarrow> chatSession promise" where
  "chatSession_create e k =
     storeCall e (ChatSession_create k) (\<lambda>s.
       if k \<notin> set (map id_k (apiKeys s)) then (Inl PersistenceError, s)
       else
         let r = \<lparr>id_s = nextId (map id_s (chatSessions s)), title = None,
                  createdAt_s = clock s, apiKeyId = k\<rparr>
         in (Inr r, s\<lparr>chatSessions := chatSessions s @ [r], clock := Suc (clock s)\<rparr>))"

text \<open>\<^verbatim>\<open>prisma.chatSession.findUnique({ where: { id } })\<close>\<close>

definition chatSession_findUnique :: "env \<Rightarrow> int \<Rightarrow> chatSession option promise" where
  "chatSession_findUnique e i =
     storeCall e (ChatSession_findUnique i) (\<lambda>s.
       (Inr (find (\<lambda>r. id_s r = i) (chatSessions s)), s))"

text \<open>
  \<^verbatim>\<open>prisma.chatSession.update({ where: { id }, data: { title } })\<close>: Prisma rejects
  when no row has the id.
\<close>

definition chatSession_update :: "env \<Rightarrow> int \<Rightarrow> string \<Rightarrow> unit promise" where
  "chatSession_update e i t =
     storeCall e (ChatSession_update i t) (\<lambda>s.
       if i \<notin> set (map id_s (chatSessions s)) then (Inl PersistenceError, s)
       else (Inr (), s\<lparr>chatSessions :=
               map (\<lambda>r. if id_s r = i then r\<lparr>title := Some t\<rparr> else r) (chatSessions s)\<rparr>))"

text \<open>\<^verbatim>\<open>prisma.chatSession.findFirst({ where: { id, apiKeyId } })\<close>\<close>

definition chatSession_findFirst :: "env \<Rightarrow> int \<Rightarrow> int \<Rightarrow> chatSession option promise" where
  "chatSession_findFirst e i k =
     storeCall e (ChatSession_findFirst i k) (\<lambda>s.
       (Inr (find (\<lambda>r. id_s r = i \<and> apiKeyId r = k) (chatSessions s)), s))"

text \<open>\<^verbatim>\<open>prisma.chatSession.findMany({ where: { apiKeyId }, orderBy: { createdAt: 'desc' } })\<close>\<close>

definition chatSession_findMany :: "env \<Rightarrow> int \<Rightarrow> chatSession list promise" where
  "chatSession_findMany e k =
     storeCall e (ChatSession_findMany k) (\<lambda>s.
       (Inr (rev (sort_key createdAt_s (filter (\<lambda>r. apiKeyId r = k) (chatSessions s)))), s))"

text \<open>
  \<^verbatim>\<open>prisma.message.create({ data: { content, sender, chatSessionId } })\<close>.
  Modelled from the spec: the parent session is a foreign key (3), so the insertion fails
  when no ChatSession row has that id.
\<close>

definition message_create :: "env \<Rightarrow> string \<Rightarrow> string \<Rightarrow> int \<Rightarrow> message promise" where
  "message_create e c who i =
     storeCall e (Message_create c who i) (\<lambda>s.
       if i \<notin> set (map id_s (chatSessions s)) then (Inl PersistenceError, s)
       else
         let r = \<lparr>id_m = nextId (map id_m (messages s)), chatSessionId = i, content = c,
                  sender = who, createdAt_m = clock s\<rparr>
         in (Inr r, s\<lparr>messages := messages s @ [r], clock := Suc (clock s)\<rparr>))"

text \<open>\<^verbatim>\<open>prisma.message.findMany({ where: { chatSessionId }, orderBy: { createdAt: 'asc' } })\<close>\<close>

definition message_findMany :: "env \<Rightarrow> int \<Rightarrow> message list promise" where
  "message_findMany e i =
     storeCall e (Message_findMany i) (\<lambda>s.
       (Inr (sort_key createdAt_m (filter (\<lambda>m. chatSessionId m = i) (messages s))), s))"

subsection \<open>The Gemini client\<close>

text \<open>\<^verbatim>\<open>genAI.models.generateContent({ model, contents })\<close>, giving \<^verbatim>\<open>result.text\<close>.\<close>

definition models_generateContent :: "env \<Rightarrow> chatContent list \<Rightarrow> string option promise" where
  "models_generateContent e contents = (\<lambda>s.
     (genContent e contents, s\<lparr>oracleCalls := oracleCalls s @ [GenerateContent contents]\<rparr>))"

text \<open>
  \<^verbatim>\<open>genAI.chats.create({ model, history }).sendMessage({ message })\<close>, giving
  \<^verbatim>\<open>result.text\<close>. Creating the chat object is local; the call to the model is
  \<^verbatim>\<open>sendMessage\<close>.
\<close>

definition chat_sendMessage :: "env \<Rightarrow> chatContent list \<Rightarrow> string \<Rightarrow> string option promise" where
  "chat_sendMessage e history msg = (\<lambda>s.
     (chatSend e history msg, s\<lparr>oracleCalls := oracleCalls s @ [SendMessage history msg]\<rparr>))"

subsection \<open>Strings\<close>

text \<open>
  A string is a list of code units below 256. \<^verbatim>\<open>String.prototype.trim\<close> removes white
  space and line terminators at both ends; below 256 these are the code units 9 to 13, 32
  and 160.
\<close>

definition isWhiteSpace :: "char \<Rightarrow> bool" where
  "isWhiteSpace c \<longleftrightarrow>
     c \<in> set [CHR 0x09, CHR 0x0A, CHR 0x0B, CHR 0x0C, CHR 0x0D, CHR 0x20, CHR 0xA0]"

definition trim :: "string \<Rightarrow> string" where
  "trim t = rev (dropWhile isWhiteSpace (rev (dropWhile isWhiteSpace t)))"

text \<open>\<^verbatim>\<open>x || d\<close> on a string that may be undefined: the empty string is falsy.\<close>

definition orElse :: "string option \<Rightarrow> string \<Rightarrow> string" where
  "orElse x d = (case x of None \<Rightarrow> d | Some t \<Rightarrow> if t = [] then d else t)"

subsection \<open>Responses and requests\<close>

datatype body =
    ErrorBody string
  | ApiKeyBody apiKey
  | StartBody "chatSession option" message
  | MessageBody message
  | SessionsBody "chatSession list"
  | HistoryBody "message list"

text \<open>
  A handler answers with a status and a JSON body. \<^verbatim>\<open>authenticateApiKey\<close> has no
  \<^verbatim>\<open>try\<close>: when its store call rejects, the rejection leaves the middleware and no
  response is written by the program (\<open>Unhandled\<close>).
\<close>

datatype outcome = Response nat body | Unhandled error

text \<open>
  \<^verbatim>\<open>req.headers['x-api-key']\<close> has the type \<^verbatim>\<open>string | string[] | undefined\<close>.
\<close>

datatype header = Absent | Single string | Several "string list"

text \<open>
  The parts of a request the handlers read. The body fields are typed as the Swagger
  documents them (a number, a string) and may be absent; \<^verbatim>\<open>param_sessionId\<close> is
  \<^verbatim>\<open>Number(req.params.sessionId)\<close>.
\<close>

record request =
  x_api_key :: header
  body_name :: "string option"
  body_message :: "string option"
  body_sessionId :: "int option"
  param_sessionId :: int

subsection \<open>The middleware\<close>

text \<open>
  \<^verbatim>\<open>authenticateApiKey(req, res, next)\<close>: \<open>next\<close> is the route handler, which receives
  the key record as \<^verbatim>\<open>res.locals.apiKey\<close>.
\<close>

definition authenticateApiKey ::
  "env \<Rightarrow> request \<Rightarrow> (apiKey \<Rightarrow> state \<Rightarrow> outcome \<times> state) \<Rightarrow> state \<Rightarrow> outcome \<times> state" where
  "authenticateApiKey e req next s =
     (case x_api_key req of
        Absent \<Rightarrow> (Response 401 (ErrorBody ''API key is missing or invalid''), s)
      | Several ks \<Rightarrow> (Response 401 (ErrorBody ''API key is missing or invalid''), s)
      | Single apiKeyHeader \<Rightarrow>
          if apiKeyHeader = [] then (Response 401 (ErrorBody ''API key is missing or invalid''), s)
          else
            (case apiKey_findUnique e apiKeyHeader s of
               (Inl err, s') \<Rightarrow> (Unhandled err, s')
             | (Inr None, s') \<Rightarrow> (Response 401 (ErrorBody ''Unauthorized: Invalid API key''), s')
             | (Inr (Some keyRecord), s') \<Rightarrow>
                 if \<not> active keyRecord
                 then (Response 401 (ErrorBody ''Unauthorized: Invalid API key''), s')
                 else next keyRecord s'))"

subsection \<open>Titles and turns\<close>

definition titlePrompt :: "string \<Rightarrow> string" where
  "titlePrompt msg =
     ''Generate a very short, concise title (max 5 words) for a chat session starting with this message: ''
     @ [CHR 0x22] @ msg @ [CHR 0x22]
     @ ''. Return ONLY the title text, no quotes or explanation.''"

text \<open>\<^verbatim>\<open>generateSessionTitle(message)\<close>: \<^verbatim>\<open>result.text?.trim() || "New Chat"\<close>, and the same default when the call rejects.\<close>

definition generateSessionTitle :: "env \<Rightarrow> string \<Rightarrow> string promise" where
  "generateSessionTitle e msg =
     tryCatch
       (await (models_generateContent e [\<lparr>role = ''user'', parts = [titlePrompt msg]\<rparr>])
          (\<lambda>text. resolve (orElse (map_option trim text) ''New Chat'')))
       (\<lambda>err. resolve ''New Chat'')"

text \<open>\<^verbatim>\<open>session && !session.title\<close> on the result of \<^verbatim>\<open>findUnique\<close>.\<close>

definition untitled :: "chatSession option \<Rightarrow> bool" where
  "untitled session =
     (case session of None \<Rightarrow> False
      | Some r \<Rightarrow> (case title r of None \<Rightarrow> True | Some t \<Rightarrow> t = []))"

definition toContent :: "message \<Rightarrow> chatContent" where
  "toContent msg = \<lparr>role = (if sender msg = ''user'' then ''user'' else ''model''),
                    parts = [content msg]\<rparr>"

text \<open>\<^verbatim>\<open>processChat(sessionId, message)\<close>; \<^verbatim>\<open>slice(0, -1)\<close> is \<open>butlast\<close>.\<close>

definition processChat :: "env \<Rightarrow> int \<Rightarrow> string \<Rightarrow> message promise" where
  "processChat e sessionId msg =
     await (chatSession_findUnique e sessionId) (\<lambda>session.
     await (if untitled session
            then await (generateSessionTitle e msg) (\<lambda>t. chatSession_update e sessionId t)
            else resolve ()) (\<lambda>_.
     await (message_create e msg ''user'' sessionId) (\<lambda>_.
     await (message_findMany e sessionId) (\<lambda>history.
     await (chat_sendMessage e (butlast (map toContent history)) msg) (\<lambda>text.
     await (message_create e (orElse text ''No response text'') ''bot'' sessionId) (\<lambda>savedBotMessage.
     resolve savedBotMessage))))))"

subsection \<open>The route handlers\<close>

text \<open>\<^verbatim>\<open>POST /api/keys/generate\<close> (no authentication).\<close>

definition keysGenerate :: "env \<Rightarrow> request \<Rightarrow> state \<Rightarrow> outcome \<times> state" where
  "keysGenerate e req s =
     (case body_name req of
        None \<Rightarrow> (Response 400 (ErrorBody ''Name is required''), s)
      | Some n \<Rightarrow>
          if n = [] then (Response 400 (ErrorBody ''Name is required''), s)
          else
            (case apiKey_create e (randomHex e) n s of
               (Inr apiKeyRecord, s') \<Rightarrow> (Response 200 (ApiKeyBody apiKeyRecord), s')
             | (Inl err, s') \<Rightarrow> (Response 500 (ErrorBody ''Failed to generate API key''), s')))"

text \<open>The handler of \<^verbatim>\<open>POST /api/chat/start\<close>, after the middleware.\<close>

definition chatStart :: "env \<Rightarrow> request \<Rightarrow> apiKey \<Rightarrow> state \<Rightarrow> outcome \<times> state" where
  "chatStart e req apiKey s =
     (case body_message req of
        None \<Rightarrow> (Response 400 (ErrorBody ''Initial message is required''), s)
      | Some msg \<Rightarrow>
          if msg = [] then (Response 400 (ErrorBody ''Initial message is required''), s)
          else
            (case
               await (chatSession_create e (id_k apiKey)) (\<lambda>session.
               await (processChat e (id_s session) msg) (\<lambda>botMessage.
               await (chatSession_findUnique e (id_s session)) (\<lambda>updatedSession.
               resolve (Response 200 (StartBody updatedSession botMessage))))) s
             of
               (Inr r, s') \<Rightarrow> (r, s')
             | (Inl err, s') \<Rightarrow> (Response 500 (ErrorBody ''Failed to create session''), s')))"

text \<open>The handler of \<^verbatim>\<open>POST /api/chat/message\<close>, after the middleware.\<close>

definition chatMessage :: "env \<Rightarrow> request \<Rightarrow> apiKey \<Rightarrow> state \<Rightarrow> outcome \<times> state" where
  "chatMessage e req apiKey s =
     (case (body_sessionId req, body_message req) of
        (Some sessionId, Some msg) \<Rightarrow>
          if sessionId = 0 \<or> msg = []
          then (Response 400 (ErrorBody ''sessionId and message are required''), s)
          else
            (case
               await (chatSession_findFirst e sessionId (id_k apiKey)) (\<lambda>session.
                 case session of
                   None \<Rightarrow> resolve (Response 404 (ErrorBody ''Session not found or unauthorized''))
                 | Some _ \<Rightarrow>
                     await (processChat e sessionId msg) (\<lambda>savedBotMessage.
                     resolve (Response 200 (MessageBody savedBotMessage)))) s
             of
               (Inr r, s') \<Rightarrow> (r, s')
             | (Inl err, s') \<Rightarrow>
                 (Response 500 (ErrorBody ''Something went wrong processing the AI response''), s'))
      | _ \<Rightarrow> (Response 400 (ErrorBody ''sessionId and message are required''), s))"

text \<open>The handler of \<^verbatim>\<open>GET /api/chat/sessions\<close>, after the middleware.\<close>

definition chatSessionsList :: "env \<Rightarrow> request \<Rightarrow> apiKey \<Rightarrow> state \<Rightarrow> outcome \<times> state" where
  "chatSessionsList e req apiKey s =
     (case chatSession_findMany e (id_k apiKey) s of
        (Inr sessions, s') \<Rightarrow> (Response 200 (SessionsBody sessions), s')
      | (Inl err, s') \<Rightarrow> (Response 500 (ErrorBody ''Failed to fetch sessions''), s'))"

text \<open>The handler of \<^verbatim>\<open>GET /api/chat/:sessionId\<close>, after the middleware.\<close>

definition chatHistory :: "env \<Rightarrow> request \<Rightarrow> apiKey \<Rightarrow> state \<Rightarrow> outcome \<times> state" where
  "chatHistory e req apiKey s =
     (case
        await (chatSession_findFirst e (param_sessionId req) (id_k apiKey)) (\<lambda>session.
          case session of
            None \<Rightarrow> resolve (Response 404 (ErrorBody ''Session not found or unauthorized''))
          | Some _ \<Rightarrow>
              await (message_findMany e (param_sessionId req)) (\<lambda>history.
              resolve (Response 200 (HistoryBody history)))) s
      of
        (Inr r, s') \<Rightarrow> (r, s')
      | (Inl err, s') \<Rightarrow> (Response 500 (ErrorBody ''Failed to fetch history''), s'))"

text \<open>The routes as registered: the middleware, then the handler.\<close>

datatype route = KeysGenerate | ChatStart | ChatMessage | ChatSessions | ChatHistory

fun serve :: "route \<Rightarrow> env \<Rightarrow> request \<Rightarrow> state \<Rightarrow> outcome \<times> state" where
  "serve KeysGenerate e req s = keysGenerate e req s"
| "serve ChatStart e req s = authenticateApiKey e req (chatStart e req) s"
| "serve ChatMessage e req s = authenticateApiKey e req (chatMessage e req) s"
| "serve ChatSessions e req s = authenticateApiKey e req (chatSessionsList e req) s"
| "serve ChatHistory e req s = authenticateApiKey e req (chatHistory e req) s"

subsection \<open>Assumptions on the surroundings, and the states the program can reach\<close>

text \<open>No store call fails for a reason outside the query itself.\<close>

definition reliable :: "env \<Rightarrow> bool" where
  "reliable e \<longleftrightarrow> (\<forall>n. \<not> faultAt e n)"

text \<open>
  What the store and the program maintain together: session ids are unique (a primary
  key), a stored title is never the empty string, every message belongs to a stored
  session (a foreign key), and the messages carry strictly increasing timestamps, all of
  them in the past of the clock.
\<close>

definition consistent :: "state \<Rightarrow> bool" where
  "consistent s \<longleftrightarrow>
     distinct (map id_s (chatSessions s)) \<and>
     (\<forall>r \<in> set (chatSessions s). title r \<noteq> Some []) \<and>
     (\<forall>m \<in> set (messages s). chatSessionId m \<in> id_s ` set (chatSessions s)) \<and>
     sorted_wrt (<) (map createdAt_m (messages s)) \<and>
     (\<forall>m \<in> set (messages s). createdAt_m m < clock s)"

text \<open>Two states with the same tables and the same clock; the logs may differ.\<close>

definition sameTables :: "state \<Rightarrow> state \<Rightarrow> bool" where
  "sameTables s s' \<longleftrightarrow>
     apiKeys s' = apiKeys s \<and> chatSessions s' = chatSessions s \<and>
     messages s' = messages s \<and> clock s' = clock s"

definition initial :: state where
  "initial = \<lparr>apiKeys = [], chatSessions = [], messages = [], clock = 0,
              storeCalls = [], oracleCalls = []\<rparr>"

text \<open>The states reached from the empty store by any sequence of requests, in any surroundings.\<close>

inductive reachable :: "state \<Rightarrow> bool" where
  init: "reachable initial"
| request: "reachable s \<Longrightarrow> serve rt e req s = (out, s') \<Longrightarrow> reachable s'"

text \<open>The session's own messages, in the order of the table.\<close>

definition turnsOf :: "state \<Rightarrow> int \<Rightarrow> message list" where
  "turnsOf s i = filter (\<lambda>m. chatSessionId m = i) (messages s)"

text \<open>The row that \<^verbatim>\<open>prisma.message.create\<close> inserts into the state \<open>s\<close>.\<close>

definition newMessage :: "state \<Rightarrow> string \<Rightarrow> string \<Rightarrow> int \<Rightarrow> message" where
  "newMessage s c who i =
     \<lparr>id_m = nextId (map id_m (messages s)), chatSessionId = i, content = c,
      sender = who, createdAt_m = clock s\<rparr>"

text \<open>The tenant \<open>k\<close> owns a session with the id \<open>i\<close>.\<close>

definition owns :: "state \<Rightarrow> apiKey \<Rightarrow> int \<Rightarrow> bool" where
  "owns s k i \<longleftrightarrow> (\<exists>r \<in> set (chatSessions s). id_s r = i \<and> apiKeyId r = id_k k)"

text \<open>Whatever its result, the call \<open>p\<close> leads from a state with \<open>I\<close> to a state with \<open>I\<close>.\<close>

definition preserves :: "(state \<Rightarrow> bool) \<Rightarrow> 'a promise \<Rightarrow> bool" where
  "preserves I p \<longleftrightarrow> (\<forall>s r s'. I s \<longrightarrow> p s = (r, s') \<longrightarrow> I s')"

subsection \<open>A small concrete system\<close>

text \<open>
  Two tenants; session 1 belongs to tenant B, is titled and has one exchange; session 2
  belongs to tenant A and is fresh.
\<close>

definition tenantA :: apiKey where
  "tenantA = \<lparr>id_k = 1, key = ''key-a'', name = ''A'', createdAt_k = 0, active = True\<rparr>"

definition tenantB :: apiKey where
  "tenantB = \<lparr>id_k = 2, key = ''key-b'', name = ''B'', createdAt_k = 1, active = True\<rparr>"

definition demoState :: state where
  "demoState = \<lparr>apiKeys = [tenantA, tenantB],
     chatSessions = [\<lparr>id_s = 1, title = Some ''Trip'', createdAt_s = 2, apiKeyId = 2\<rparr>,
                     \<lparr>id_s = 2, title = None, createdAt_s = 5, apiKeyId = 1\<rparr>],
     messages = [\<lparr>id_m = 1, chatSessionId = 1, content = ''Hi'', sender = ''user'', createdAt_m = 3\<rparr>,
                 \<lparr>id_m = 2, chatSessionId = 1, content = ''Hello'', sender = ''bot'', createdAt_m = 4\<rparr>],
     clock = 6, storeCalls = [], oracleCalls = []\<rparr>"

text \<open>Surroundings with a reliable store, a fixed answer to the title call and to the reply call.\<close>

definition demoEnv :: "(error + string option) \<Rightarrow> (error + string option) \<Rightarrow> env" where
  "demoEnv t r = \<lparr>genContent = (\<lambda>_. t), chatSend = (\<lambda>_ _. r), faultAt = (\<lambda>_. False),
                  randomHex = ''00ff''\<rparr>"

definition demoRequest :: "header \<Rightarrow> int \<Rightarrow> string \<Rightarrow> request" where
  "demoRequest h i m = \<lparr>x_api_key = h, body_name = None, body_message = Some m,
                        body_sessionId = Some i, param_sessionId = i\<rparr>"

section \<open>Properties\<close>

subsection \<open>Basic facts about the calls\<close>

text \<open>
  What each call does to the tables, in any surroundings and whatever its result. These
  facts are proved per call and combined along the \<^verbatim>\<open>await\<close>s of a handler with the
  rule \<open>awaitE\<close>, which separates the rejection of the first call from its resolution.
\<close>

lemma storeCall_reliable:
  "reliable e \<Longrightarrow> storeCall e c run s = run (s\<lparr>storeCalls := storeCalls s @ [c]\<rparr>)"
  by (simp add: storeCall_def reliable_def)

lemma reliable_demoEnv: "reliable (demoEnv t r)"
  by (simp add: reliable_def demoEnv_def)

lemma nextId_gt: "i \<in> set ids \<Longrightarrow> i < nextId ids"
  unfolding nextId_def by (induction ids) auto

lemma map_id_s_retitle [simp]:
  "map id_s (map (\<lambda>r. if id_s r = i then r\<lparr>title := Some t\<rparr> else r) rs) = map id_s rs"
  by (induction rs) auto

lemma sorted_wrt_less_snoc:
  "sorted_wrt (<) (map f xs) \<Longrightarrow> \<forall>x \<in> set xs. f x < (c::nat) \<Longrightarrow> f y = c \<Longrightarrow>
   sorted_wrt (<) (map f (xs @ [y]))"
  by (auto simp: sorted_wrt_append)

lemma sort_key_strict_id:
  "sorted_wrt (<) (map f xs) \<Longrightarrow> sort_key f xs = (xs :: 'a list)" for f :: "'a \<Rightarrow> nat"
  by (rule sort_key_id_if_sorted) (simp add: strict_sorted_imp_sorted)

lemma sorted_wrt_filter_map:
  "sorted_wrt (<) (map f xs) \<Longrightarrow> sorted_wrt (<) (map f (filter P xs))" for f :: "'a \<Rightarrow> nat"
  by (induction xs) auto

lemma sameTables_refl [simp]: "sameTables s s"
  by (simp add: sameTables_def)

lemma sameTables_log [simp]:
  "sameTables s (s\<lparr>storeCalls := l\<rparr>)" "sameTables s (s\<lparr>oracleCalls := l'\<rparr>)"
  by (simp_all add: sameTables_def)

lemma awaitE:
  assumes "await m f s = (r, s')"
  obtains (rejected) err where "m s = (Inl err, s')" "r = Inl err"
        | (resolved) x s1 where "m s = (Inr x, s1)" "f x s1 = (r, s')"
  using assms by (auto simp: await_def split: prod.splits sum.splits)

lemma orElse_nonempty: "d \<noteq> [] \<Longrightarrow> orElse x d \<noteq> []"
  by (auto simp: orElse_def split: option.splits)

lemma chatSession_findUnique_effect:
  assumes "chatSession_findUnique e i s = (r, s')"
  shows "sameTables s s' \<and> (\<forall>x. r = Inr x \<longrightarrow> x = find (\<lambda>r. id_s r = i) (chatSessions s))"
  using assms by (auto simp: chatSession_findUnique_def storeCall_def split: if_splits)

lemma chatSession_findFirst_effect:
  assumes "chatSession_findFirst e i k s = (r, s')"
  shows "sameTables s s' \<and>
     (\<forall>x. r = Inr x \<longrightarrow> x = find (\<lambda>r. id_s r = i \<and> apiKeyId r = k) (chatSessions s))"
  using assms by (auto simp: chatSession_findFirst_def storeCall_def split: if_splits)

lemma chatSession_findMany_effect:
  assumes "chatSession_findMany e k s = (r, s')"
  shows "sameTables s s'"
  using assms by (auto simp: chatSession_findMany_def storeCall_def split: if_splits)

lemma message_findMany_effect:
  assumes "message_findMany e i s = (r, s')"
  shows "sameTables s s'"
  using assms by (auto simp: message_findMany_def storeCall_def split: if_splits)

lemma apiKey_findUnique_effect:
  assumes "apiKey_findUnique e k s = (r, s')"
  shows "sameTables s s'"
  using assms by (auto simp: apiKey_findUnique_def storeCall_def split: if_splits)

lemma chat_sendMessage_effect:
  assumes "chat_sendMessage e h m s = (r, s')"
  shows "sameTables s s'"
  using assms by (auto simp: chat_sendMessage_def)

lemma generateSessionTitle_eq:
  "generateSessionTitle e m s =
     (Inr (case genContent e [\<lparr>role = ''user'', parts = [titlePrompt m]\<rparr>] of
             Inl _ \<Rightarrow> ''New Chat''
           | Inr t \<Rightarrow> orElse (map_option trim t) ''New Chat''),
      s\<lparr>oracleCalls := oracleCalls s @
           [GenerateContent [\<lparr>role = ''user'', parts = [titlePrompt m]\<rparr>]]\<rparr>)"
  unfolding generateSessionTitle_def models_generateContent_def tryCatch_def await_def resolve_def
  by (simp split: sum.split)

lemma generateSessionTitle_effect:
  assumes "generateSessionTitle e m s = (r, s')"
  shows "sameTables s s' \<and> (\<exists>t. r = Inr t \<and> t \<noteq> [])"
proof -
  have "''New Chat'' \<noteq> []" by simp
  then have "(case genContent e [\<lparr>role = ''user'', parts = [titlePrompt m]\<rparr>] of
             Inl _ \<Rightarrow> ''New Chat''
           | Inr t \<Rightarrow> orElse (map_option trim t) ''New Chat'') \<noteq> []"
    by (simp add: orElse_nonempty split: sum.split)
  with assms show ?thesis unfolding generateSessionTitle_eq by auto
qed

lemma chatSession_update_effect:
  assumes "chatSession_update e i t s = (r, s')"
  shows "apiKeys s' = apiKeys s \<and> messages s' = messages s \<and> clock s' = clock s \<and>
     (case r of Inl _ \<Rightarrow> chatSessions s' = chatSessions s
      | Inr _ \<Rightarrow> chatSessions s' =
          map (\<lambda>r. if id_s r = i then r\<lparr>title := Some t\<rparr> else r) (chatSessions s))"
  using assms by (auto simp: chatSession_update_def storeCall_def split: if_splits)

lemma message_create_effect:
  assumes "message_create e c w i s = (r, s')"
  shows "apiKeys s' = apiKeys s \<and> chatSessions s' = chatSessions s \<and>
     (case r of Inl _ \<Rightarrow> messages s' = messages s \<and> clock s' = clock s
      | Inr x \<Rightarrow> x = newMessage s c w i \<and> messages s' = messages s @ [x] \<and>
                 clock s' = Suc (clock s) \<and> i \<in> id_s ` set (chatSessions s))"
  using assms
  by (auto simp: message_create_def storeCall_def newMessage_def Let_def split: if_splits)

lemma chatSession_create_effect:
  assumes "chatSession_create e k s = (r, s')"
  shows "apiKeys s' = apiKeys s \<and> messages s' = messages s \<and>
     (case r of Inl _ \<Rightarrow> chatSessions s' = chatSessions s \<and> clock s' = clock s
      | Inr x \<Rightarrow> x = \<lparr>id_s = nextId (map id_s (chatSessions s)), title = None,
                       createdAt_s = clock s, apiKeyId = k\<rparr> \<and>
                 chatSessions s' = chatSessions s @ [x] \<and> clock s' = Suc (clock s))"
  using assms
  by (auto simp: chatSession_create_def storeCall_def Let_def split: if_splits)

lemma apiKey_create_effect:
  assumes "apiKey_create e k n s = (r, s')"
  shows "chatSessions s' = chatSessions s \<and> messages s' = messages s \<and> clock s \<le> clock s'"
  using assms
  by (auto simp: apiKey_create_def storeCall_def Let_def split: if_splits)

lemma titling_effect:
  assumes "(if untitled session
            then await (generateSessionTitle e m) (\<lambda>t. chatSession_update e i t)
            else resolve ()) s = (r, s')"
  shows "apiKeys s' = apiKeys s \<and> messages s' = messages s \<and> clock s' = clock s \<and>
     (chatSessions s' = chatSessions s \<or>
      (untitled session \<and> (\<exists>t. t \<noteq> [] \<and> chatSessions s' =
          map (\<lambda>r. if id_s r = i then r\<lparr>title := Some t\<rparr> else r) (chatSessions s))))"
proof (cases "untitled session")
  case False
  with assms show ?thesis by (simp add: resolve_def)
next
  case True
  with assms have "await (generateSessionTitle e m) (\<lambda>t. chatSession_update e i t) s = (r, s')"
    by simp
  then show ?thesis
  proof (cases rule: awaitE)
    case (rejected err)
    then show ?thesis using generateSessionTitle_effect by blast
  next
    case (resolved t s1)
    from generateSessionTitle_effect[OF resolved(1)] have s1: "sameTables s s1" and t: "t \<noteq> []"
      by auto
    from chatSession_update_effect[OF resolved(2)] s1 t True show ?thesis
      by (cases r) (auto simp: sameTables_def)
  qed
qed

lemma processChat_tail_effect:
  assumes "(await (message_create e m ''user'' i) (\<lambda>_.
     await (message_findMany e i) (\<lambda>history.
     await (chat_sendMessage e (butlast (map toContent history)) m) (\<lambda>text.
     await (message_create e (orElse text ''No response text'') ''bot'' i) (\<lambda>savedBotMessage.
     resolve savedBotMessage))))) s = (r, s')"
  shows "apiKeys s' = apiKeys s \<and> chatSessions s' = chatSessions s \<and>
         (\<exists>new. messages s' = messages s @ new \<and> clock s' = clock s + length new \<and>
                map createdAt_m new = [clock s ..< clock s + length new] \<and>
                (\<forall>x \<in> set new. chatSessionId x = i) \<and>
                (new \<noteq> [] \<longrightarrow> i \<in> id_s ` set (chatSessions s)))"
  using assms
proof (cases rule: awaitE)
  case (rejected err)
  from message_create_effect[OF rejected(1)] show ?thesis by simp
next
  case (resolved u s1)
  from message_create_effect[OF resolved(1)]
  have s1: "apiKeys s1 = apiKeys s" "chatSessions s1 = chatSessions s"
    "messages s1 = messages s @ [newMessage s m ''user'' i]" "clock s1 = Suc (clock s)"
    "i \<in> id_s ` set (chatSessions s)"
    by auto
  have one: "\<exists>new. messages s1 = messages s @ new \<and> clock s1 = clock s + length new \<and>
                map createdAt_m new = [clock s ..< clock s + length new] \<and>
                (\<forall>x \<in> set new. chatSessionId x = i) \<and>
                (new \<noteq> [] \<longrightarrow> i \<in> id_s ` set (chatSessions s))"
    by (rule exI[of _ "[newMessage s m ''user'' i]"]) (simp add: s1 newMessage_def)
  from resolved(2) show ?thesis
  proof (cases rule: awaitE)
    case (rejected err)
    from message_findMany_effect[OF rejected(1)] s1 one show ?thesis
      by (simp add: sameTables_def)
  next
    case (resolved h s2)
    note h = message_findMany_effect[OF resolved(1)]
    from resolved(2) show ?thesis
    proof (cases rule: awaitE)
      case (rejected err)
      from chat_sendMessage_effect[OF rejected(1)] h s1 one show ?thesis
        by (simp add: sameTables_def)
    next
      case (resolved reply s3)
      note o = chat_sendMessage_effect[OF resolved(1)]
      from resolved(2) show ?thesis
      proof (cases rule: awaitE)
        case (rejected err)
        from message_create_effect[OF rejected(1)] o h s1 one show ?thesis
          by (simp add: sameTables_def)
      next
        case (resolved b s4)
        then have "s' = s4" by (simp add: resolve_def)
        with message_create_effect[OF resolved(1)] o h s1
        have s4: "apiKeys s' = apiKeys s" "chatSessions s' = chatSessions s"
          "messages s' = messages s @ [newMessage s m ''user'' i, b]" "clock s' = clock s + 2"
          "createdAt_m b = Suc (clock s)" "chatSessionId b = i"
          by (auto simp: sameTables_def newMessage_def)
        show ?thesis using s4 s1(5)
          by (intro conjI exI[of _ "[newMessage s m ''user'' i, b]"])
             (simp_all add: newMessage_def upt_rec)
      qed
    qed
  qed
qed

subsection \<open>The calls on a reliable store\<close>

text \<open>
  When no store call fails from outside, each call is an equation between states; the
  simplifier then runs a handler from its first call to its last.
\<close>

lemma chatSession_findUnique_reliable:
  "reliable e \<Longrightarrow> chatSession_findUnique e i s =
     (Inr (find (\<lambda>r. id_s r = i) (chatSessions s)),
      s\<lparr>storeCalls := storeCalls s @ [ChatSession_findUnique i]\<rparr>)"
  by (simp add: chatSession_findUnique_def storeCall_reliable)

lemma chatSession_findFirst_ok:
  "\<not> faultAt e (length (storeCalls s)) \<Longrightarrow> chatSession_findFirst e i k s =
     (Inr (find (\<lambda>r. id_s r = i \<and> apiKeyId r = k) (chatSessions s)),
      s\<lparr>storeCalls := storeCalls s @ [ChatSession_findFirst i k]\<rparr>)"
  by (simp add: chatSession_findFirst_def storeCall_def)

lemma chatSession_update_reliable:
  "reliable e \<Longrightarrow> i \<in> id_s ` set (chatSessions s) \<Longrightarrow> chatSession_update e i t s =
     (Inr (), s\<lparr>chatSessions :=
                  map (\<lambda>r. if id_s r = i then r\<lparr>title := Some t\<rparr> else r) (chatSessions s),
               storeCalls := storeCalls s @ [ChatSession_update i t]\<rparr>)"
  by (simp add: chatSession_update_def storeCall_reliable)

lemma message_create_reliable:
  "reliable e \<Longrightarrow> i \<in> id_s ` set (chatSessions s) \<Longrightarrow> message_create e c w i s =
     (Inr \<lparr>id_m = nextId (map id_m (messages s)), chatSessionId = i, content = c,
           sender = w, createdAt_m = clock s\<rparr>,
      s\<lparr>messages := messages s @
           [\<lparr>id_m = nextId (map id_m (messages s)), chatSessionId = i, content = c,
             sender = w, createdAt_m = clock s\<rparr>],
        clock := Suc (clock s),
        storeCalls := storeCalls s @ [Message_create c w i]\<rparr>)"
  by (simp add: message_create_def storeCall_reliable Let_def)

lemma message_findMany_reliable:
  "reliable e \<Longrightarrow> message_findMany e i s =
     (Inr (sort_key createdAt_m (filter (\<lambda>m. chatSessionId m = i) (messages s))),
      s\<lparr>storeCalls := storeCalls s @ [Message_findMany i]\<rparr>)"
  by (simp add: message_findMany_def storeCall_reliable)

lemma chatSession_create_ok:
  "\<not> faultAt e (length (storeCalls s)) \<Longrightarrow> k \<in> id_k ` set (apiKeys s) \<Longrightarrow> chatSession_create e k s =
     (Inr \<lparr>id_s = nextId (map id_s (chatSessions s)), title = None,
           createdAt_s = clock s, apiKeyId = k\<rparr>,
      s\<lparr>chatSessions := chatSessions s @
           [\<lparr>id_s = nextId (map id_s (chatSessions s)), title = None,
             createdAt_s = clock s, apiKeyId = k\<rparr>],
        clock := Suc (clock s),
        storeCalls := storeCalls s @ [ChatSession_create k]\<rparr>)"
  by (simp add: chatSession_create_def storeCall_def Let_def)

lemma history_after_append_row:
  assumes "consistent s"
  shows "sort_key createdAt_m
           (filter (\<lambda>m. chatSessionId m = i) (messages s) @
              [\<lparr>id_m = n, chatSessionId = j, content = c, sender = w, createdAt_m = clock s\<rparr>])
         = filter (\<lambda>m. chatSessionId m = i) (messages s) @
              [\<lparr>id_m = n, chatSessionId = j, content = c, sender = w, createdAt_m = clock s\<rparr>]"
proof -
  have "sorted_wrt (<) (map createdAt_m (filter (\<lambda>m. chatSessionId m = i) (messages s)))"
    using assms unfolding consistent_def by (intro sorted_wrt_filter_map) simp
  moreover have "\<forall>x \<in> set (filter (\<lambda>m. chatSessionId m = i) (messages s)). createdAt_m x < clock s"
    using assms unfolding consistent_def by simp
  ultimately have "sorted_wrt (<) (map createdAt_m
      (filter (\<lambda>m. chatSessionId m = i) (messages s) @
         [\<lparr>id_m = n, chatSessionId = j, content = c, sender = w, createdAt_m = clock s\<rparr>]))"
    by (intro sorted_wrt_less_snoc[where c = "clock s"]) simp_all
  then show ?thesis by (rule sort_key_strict_id)
qed

lemmas reliable_calls = chatSession_findUnique_reliable chatSession_update_reliable
  message_create_reliable message_findMany_reliable generateSessionTitle_eq chat_sendMessage_def

lemma image_id_s_retitle [simp]:
  "id_s ` (\<lambda>r. if id_s r = i then r\<lparr>title := Some t\<rparr> else r) ` set rs = id_s ` set rs"
  unfolding image_image by (rule image_cong) simp_all

subsection \<open>Consistency is an invariant\<close>

text \<open>
  Every call, \<^verbatim>\<open>processChat\<close> and every route preserve \<open>consistent\<close>, in any
  surroundings and whatever the result; the empty store is consistent. So every state the
  program can reach is consistent (\<open>reachable_consistent\<close>), and a theorem that assumes a
  consistent state speaks about all of them.
\<close>

lemma consistent_sameTables: "consistent s \<Longrightarrow> sameTables s s' \<Longrightarrow> consistent s'"
  by (simp add: consistent_def sameTables_def)

lemma consistent_retitled:
  assumes "consistent s" "t \<noteq> []"
      and "chatSessions s' = map (\<lambda>r. if id_s r = i then r\<lparr>title := Some t\<rparr> else r) (chatSessions s)"
      and "messages s' = messages s" "clock s' = clock s"
  shows "consistent s'"
proof -
  have ids: "map id_s (chatSessions s') = map id_s (chatSessions s)"
    using assms(3) by (simp only: map_id_s_retitle)
  then have img: "id_s ` set (chatSessions s') = id_s ` set (chatSessions s)"
    by (metis set_map)
  have titles: "\<forall>r \<in> set (chatSessions s'). title r \<noteq> Some []"
    using assms(1,2) unfolding assms(3) consistent_def by auto
  show ?thesis
    using assms(1,4,5) ids img titles unfolding consistent_def by simp
qed

lemma sorted_wrt_upt_append:
  assumes "sorted_wrt (<) (map f xs)" "\<forall>x \<in> set xs. f x < (c::nat)"
      and "map f new = [c ..< c + length new]"
  shows "sorted_wrt (<) (map f (xs @ new)) \<and> (\<forall>x \<in> set (xs @ new). f x < c + length new)"
proof -
  have new: "sorted_wrt (<) (map f new)" "\<forall>y \<in> set (map f new). c \<le> y \<and> y < c + length new"
    using assms(3) by (simp_all add: sorted_wrt_iff_nth_less)
  then have "\<forall>x \<in> set xs. \<forall>y \<in> set new. f x < f y"
    using assms(2) by fastforce
  with assms(1,2) new show ?thesis
    by (auto simp: sorted_wrt_append)
qed

lemma consistent_appended:
  assumes "consistent s" "chatSessions s' = chatSessions s"
      and "messages s' = messages s @ new" "clock s' = clock s + length new"
      and "map createdAt_m new = [clock s ..< clock s + length new]"
      and "\<forall>x \<in> set new. chatSessionId x \<in> id_s ` set (chatSessions s)"
  shows "consistent s'"
proof -
  from assms(1) have "sorted_wrt (<) (map createdAt_m (messages s))"
    "\<forall>x \<in> set (messages s). createdAt_m x < clock s"
    by (simp_all add: consistent_def)
  from sorted_wrt_upt_append[OF this assms(5)] assms show ?thesis
    by (auto simp: consistent_def)
qed

lemma consistent_session_added:
  assumes "consistent s" "messages s' = messages s" "clock s \<le> clock s'"
      and "chatSessions s' = chatSessions s @ [x]" "id_s x = nextId (map id_s (chatSessions s))"
      and "title x = None"
  shows "consistent s'"
  using assms nextId_gt[of _ "map id_s (chatSessions s)"]
  by (fastforce simp: consistent_def)

lemma consistent_clock:
  assumes "consistent s" "messages s' = messages s" "clock s \<le> clock s'"
      and "chatSessions s' = chatSessions s"
  shows "consistent s'"
  using assms by (fastforce simp: consistent_def)

lemma preservesD: "preserves I p \<Longrightarrow> I s \<Longrightarrow> p s = (r, s') \<Longrightarrow> I s'"
  unfolding preserves_def by blast

lemma preserves_resolve [simp]: "preserves I (resolve x)"
  by (simp add: preserves_def resolve_def)

lemma preserves_await:
  assumes "preserves I p" "\<And>x. preserves I (f x)"
  shows "preserves I (await p f)"
  unfolding preserves_def
proof (intro allI impI)
  fix s r s' assume "I s" "await p f s = (r, s')"
  from this(2) show "I s'"
  proof (cases rule: awaitE)
    case (rejected err)
    with assms(1) \<open>I s\<close> show ?thesis by (blast dest: preservesD)
  next
    case (resolved x s1)
    with assms \<open>I s\<close> show ?thesis by (blast dest: preservesD)
  qed
qed

lemma preserves_handled:
  assumes "preserves I p" "I s"
      and "(case p s of (Inr r, s') \<Rightarrow> (r, s') | (Inl err, s') \<Rightarrow> (c, s')) = (out, s'')"
  shows "I s''"
proof -
  obtain r s1 where p: "p s = (r, s1)" by (cases "p s")
  with assms(3) have "s'' = s1" by (cases r) auto
  with preservesD[OF assms(1,2) p] show ?thesis by simp
qed

lemma ids_retitled:
  "id_s ` set (map (\<lambda>r. if id_s r = i then r\<lparr>title := Some t\<rparr> else r) cs) = id_s ` set cs"
  by (simp del: if_image_distrib)

lemma processChat_effect:
  assumes "processChat e i m s = (r, s')"
  shows "apiKeys s' = apiKeys s \<and>
         (chatSessions s' = chatSessions s \<or>
          (untitled (find (\<lambda>r. id_s r = i) (chatSessions s)) \<and>
           (\<exists>t. t \<noteq> [] \<and> chatSessions s' =
              map (\<lambda>r. if id_s r = i then r\<lparr>title := Some t\<rparr> else r) (chatSessions s)))) \<and>
         (\<exists>new. messages s' = messages s @ new \<and> clock s' = clock s + length new \<and>
                map createdAt_m new = [clock s ..< clock s + length new] \<and>
                (\<forall>x \<in> set new. chatSessionId x = i) \<and>
                (new \<noteq> [] \<longrightarrow> i \<in> id_s ` set (chatSessions s)))"
  using assms unfolding processChat_def
proof (cases rule: awaitE)
  case (rejected err)
  from chatSession_findUnique_effect[OF rejected(1)] show ?thesis
    by (simp add: sameTables_def)
next
  case (resolved session s1)
  from chatSession_findUnique_effect[OF resolved(1)]
  have s1: "sameTables s s1" and session: "session = find (\<lambda>r. id_s r = i) (chatSessions s)"
    by auto
  from resolved(2) show ?thesis
  proof (cases rule: awaitE)
    case (rejected err)
    from titling_effect[OF rejected(1)] s1 session show ?thesis
      by (auto simp: sameTables_def)
  next
    case (resolved u s2)
    from titling_effect[OF resolved(1)] s1 session
    have s2: "apiKeys s2 = apiKeys s" "messages s2 = messages s" "clock s2 = clock s"
      "chatSessions s2 = chatSessions s \<or>
          (untitled (find (\<lambda>r. id_s r = i) (chatSessions s)) \<and>
           (\<exists>t. t \<noteq> [] \<and> chatSessions s2 =
              map (\<lambda>r. if id_s r = i then r\<lparr>title := Some t\<rparr> else r) (chatSessions s)))"
      by (auto simp: sameTables_def)
    from s2(4) have ids: "id_s ` set (chatSessions s2) = id_s ` set (chatSessions s)"
      by (elim disjE conjE exE) (simp_all only: ids_retitled)
    from processChat_tail_effect[OF resolved(2)] s2 ids show ?thesis
      by simp
  qed
qed

lemma processChat_consistent:
  assumes "consistent s" "processChat e i m s = (r, s')"
  shows "consistent s'"
proof -
  from processChat_effect[OF assms(2)] obtain new where
    cs: "chatSessions s' = chatSessions s \<or>
          (\<exists>t. t \<noteq> [] \<and> chatSessions s' =
              map (\<lambda>r. if id_s r = i then r\<lparr>title := Some t\<rparr> else r) (chatSessions s))"
    and new: "messages s' = messages s @ new" "clock s' = clock s + length new"
      "map createdAt_m new = [clock s ..< clock s + length new]"
      "\<forall>x \<in> set new. chatSessionId x = i" "new \<noteq> [] \<longrightarrow> i \<in> id_s ` set (chatSessions s)"
    by blast
  define s1 where "s1 = s\<lparr>chatSessions := chatSessions s'\<rparr>"
  from cs have "consistent s1"
  proof
    assume "chatSessions s' = chatSessions s"
    then show ?thesis using assms(1) by (simp add: s1_def consistent_def)
  next
    assume "\<exists>t. t \<noteq> [] \<and> chatSessions s' =
              map (\<lambda>r. if id_s r = i then r\<lparr>title := Some t\<rparr> else r) (chatSessions s)"
    then obtain t where "t \<noteq> []" "chatSessions s1 =
              map (\<lambda>r. if id_s r = i then r\<lparr>title := Some t\<rparr> else r) (chatSessions s)"
      by (auto simp: s1_def)
    then show ?thesis by (rule consistent_retitled[OF assms(1)]) (simp_all add: s1_def)
  qed
  moreover have "chatSessions s1 = chatSessions s'"
    by (simp add: s1_def)
  with cs have ids: "id_s ` set (chatSessions s1) = id_s ` set (chatSessions s)"
    by (elim disjE conjE exE) (simp_all only: ids_retitled)
  ultimately show ?thesis
    using new by (intro consistent_appended[of s1 s' new]) (auto simp: s1_def)
qed

lemma preserves_consistent_reads:
  "preserves consistent (chatSession_findUnique e i)"
  "preserves consistent (chatSession_findFirst e i k)"
  "preserves consistent (chatSession_findMany e k)"
  "preserves consistent (message_findMany e i)"
  "preserves consistent (apiKey_findUnique e h)"
  unfolding preserves_def
  by (blast dest: chatSession_findUnique_effect chatSession_findFirst_effect
        chatSession_findMany_effect message_findMany_effect apiKey_findUnique_effect
        intro: consistent_sameTables)+

lemma preserves_consistent_chatSession_create:
  "preserves consistent (chatSession_create e k)"
  unfolding preserves_def
proof (intro allI impI)
  fix s r s' assume c: "consistent s" and run: "chatSession_create e k s = (r, s')"
  show "consistent s'"
  proof (cases r)
    case (Inl err)
    with chatSession_create_effect[OF run] c show ?thesis
      by (auto intro: consistent_clock)
  next
    case (Inr x)
    with chatSession_create_effect[OF run] c show ?thesis
      by (intro consistent_session_added[of s s' x]) auto
  qed
qed

lemma preserves_consistent_apiKey_create:
  "preserves consistent (apiKey_create e h n)"
  unfolding preserves_def
  using apiKey_create_effect consistent_clock by blast

lemma preserves_consistent_processChat:
  "preserves consistent (processChat e i m)"
  unfolding preserves_def using processChat_consistent by blast

lemmas preserves_consistent = preserves_consistent_reads preserves_consistent_chatSession_create
  preserves_consistent_apiKey_create preserves_consistent_processChat

lemma keysGenerate_consistent:
  assumes "consistent s" "keysGenerate e req s = (out, s')"
  shows "consistent s'"
  using assms preservesD[OF preserves_consistent_apiKey_create assms(1)]
  by (auto simp: keysGenerate_def split: option.splits if_splits prod.splits sum.splits)

lemma chatStart_consistent:
  assumes "consistent s" "chatStart e req k s = (out, s')"
  shows "consistent s'"
proof (cases "body_message req")
  case None
  with assms show ?thesis by (simp add: chatStart_def)
next
  case (Some m)
  show ?thesis
  proof (cases "m = []")
    case True
    with assms Some show ?thesis by (simp add: chatStart_def)
  next
    case False
    have "preserves consistent
            (await (chatSession_create e (id_k k)) (\<lambda>session.
             await (processChat e (id_s session) m) (\<lambda>botMessage.
             await (chatSession_findUnique e (id_s session)) (\<lambda>updatedSession.
             resolve (Response 200 (StartBody updatedSession botMessage))))))"
      by (intro preserves_await preserves_consistent preserves_resolve)
    from preserves_handled[OF this assms(1)] assms(2) Some False show ?thesis
      by (simp add: chatStart_def)
  qed
qed

lemma chatMessage_consistent:
  assumes "consistent s" "chatMessage e req k s = (out, s')"
  shows "consistent s'"
proof (cases "\<exists>i m. body_sessionId req = Some i \<and> body_message req = Some m \<and> i \<noteq> 0 \<and> m \<noteq> []")
  case False
  with assms show ?thesis
    by (auto simp: chatMessage_def split: option.splits if_splits)
next
  case True
  then obtain i m where req: "body_sessionId req = Some i" "body_message req = Some m"
    "i \<noteq> 0" "m \<noteq> []" by blast
  have "preserves consistent
          (await (chatSession_findFirst e i (id_k k)) (\<lambda>session.
             case session of
               None \<Rightarrow> resolve (Response 404 (ErrorBody ''Session not found or unauthorized''))
             | Some _ \<Rightarrow>
                 await (processChat e i m) (\<lambda>savedBotMessage.
                 resolve (Response 200 (MessageBody savedBotMessage)))))"
    by (intro preserves_await preserves_consistent)
       (auto split: option.split intro!: preserves_await preserves_consistent)
  from preserves_handled[OF this assms(1)] assms(2) req show ?thesis
    by (simp add: chatMessage_def)
qed

lemma chatSessionsList_consistent:
  assumes "consistent s" "chatSessionsList e req k s = (out, s')"
  shows "consistent s'"
  using assms preservesD[OF preserves_consistent_reads(3) assms(1)]
  by (auto simp: chatSessionsList_def split: prod.splits sum.splits)

lemma chatHistory_consistent:
  assumes "consistent s" "chatHistory e req k s = (out, s')"
  shows "consistent s'"
proof -
  have "preserves consistent
          (await (chatSession_findFirst e (param_sessionId req) (id_k k)) (\<lambda>session.
             case session of
               None \<Rightarrow> resolve (Response 404 (ErrorBody ''Session not found or unauthorized''))
             | Some _ \<Rightarrow>
                 await (message_findMany e (param_sessionId req)) (\<lambda>history.
                 resolve (Response 200 (HistoryBody history)))))"
    by (intro preserves_await preserves_consistent)
       (auto split: option.split intro!: preserves_await preserves_consistent)
  from preserves_handled[OF this assms(1)] assms(2) show ?thesis
    by (simp add: chatHistory_def)
qed

lemma authenticateApiKey_consistent:
  assumes "\<And>k s s' out. consistent s \<Longrightarrow> handler k s = (out, s') \<Longrightarrow> consistent s'"
      and "consistent s" "authenticateApiKey e req handler s = (out, s')"
  shows "consistent s'"
proof (cases "\<exists>h. x_api_key req = Single h \<and> h \<noteq> []")
  case False
  with assms(2,3) show ?thesis
    by (auto simp: authenticateApiKey_def split: header.splits if_splits)
next
  case True
  then obtain h where h: "x_api_key req = Single h" "h \<noteq> []" by blast
  obtain r s1 where run: "apiKey_findUnique e h s = (r, s1)"
    by (cases "apiKey_findUnique e h s")
  from preservesD[OF preserves_consistent_reads(5) assms(2) run] have "consistent s1" .
  with assms(1)[of s1] assms(3) h run show ?thesis
    by (auto simp: authenticateApiKey_def split: sum.splits option.splits if_splits)
qed

lemma serve_consistent:
  assumes "consistent s" "serve rt e req s = (out, s')"
  shows "consistent s'"
proof (cases rt)
  case KeysGenerate
  with assms show ?thesis by (auto intro: keysGenerate_consistent)
next
  case ChatStart
  with assms(2) have "authenticateApiKey e req (chatStart e req) s = (out, s')" by simp
  from authenticateApiKey_consistent[OF _ assms(1) this] show ?thesis
    by (blast intro: chatStart_consistent)
next
  case ChatMessage
  with assms(2) have "authenticateApiKey e req (chatMessage e req) s = (out, s')" by simp
  from authenticateApiKey_consistent[OF _ assms(1) this] show ?thesis
    by (blast intro: chatMessage_consistent)
next
  case ChatSessions
  with assms(2) have "authenticateApiKey e req (chatSessionsList e req) s = (out, s')" by simp
  from authenticateApiKey_consistent[OF _ assms(1) this] show ?thesis
    by (blast intro: chatSessionsList_consistent)
next
  case ChatHistory
  with assms(2) have "authenticateApiKey e req (chatHistory e req) s = (out, s')" by simp
  from authenticateApiKey_consistent[OF _ assms(1) this] show ?thesis
    by (blast intro: chatHistory_consistent)
qed

lemma consistent_initial: "consistent initial"
  by (simp add: consistent_def initial_def)

lemma reachable_consistent: "reachable s \<Longrightarrow> consistent s"
  by (induction rule: reachable.induct) (auto intro: consistent_initial serve_consistent)

subsection \<open>One turn on a reliable store\<close>

text \<open>
  The two ways \<^verbatim>\<open>processChat\<close> ends on a reliable store: the reply call rejects, or it
  resolves. \<open>T\<close> is the title that \<^verbatim>\<open>generateSessionTitle\<close> resolves with.
\<close>

lemma processChat_rejected:
  assumes "reliable e" "consistent s" "i \<in> id_s ` set (chatSessions s)"
      and "chatSend e (map toContent (turnsOf s i)) m = Inl err"
      and "(case genContent e [\<lparr>role = ''user'', parts = [titlePrompt m]\<rparr>] of
              Inl _ \<Rightarrow> ''New Chat'' | Inr t \<Rightarrow> orElse (map_option trim t) ''New Chat'') = T"
  shows "\<exists>s'. processChat e i m s = (Inl err, s') \<and>
           apiKeys s' = apiKeys s \<and>
           chatSessions s' =
             (if untitled (find (\<lambda>r. id_s r = i) (chatSessions s))
              then map (\<lambda>r. if id_s r = i then r\<lparr>title := Some T\<rparr> else r) (chatSessions s)
              else chatSessions s) \<and>
           messages s' = messages s @ [newMessage s m ''user'' i] \<and>
           oracleCalls s' = oracleCalls s @
              (if untitled (find (\<lambda>r. id_s r = i) (chatSessions s))
               then [GenerateContent [\<lparr>role = ''user'', parts = [titlePrompt m]\<rparr>]] else [])
              @ [SendMessage (map toContent (turnsOf s i)) m]"
proof (cases "untitled (find (\<lambda>r. id_s r = i) (chatSessions s))")
  case True
  with assms show ?thesis
    by (simp add: processChat_def await_def resolve_def reliable_calls history_after_append_row
        newMessage_def turnsOf_def del: if_image_distrib)
next
  case False
  with assms show ?thesis
    by (simp add: processChat_def await_def resolve_def reliable_calls history_after_append_row
        newMessage_def turnsOf_def del: if_image_distrib)
qed

lemma processChat_resolved:
  assumes "reliable e" "consistent s" "i \<in> id_s ` set (chatSessions s)"
      and "chatSend e (map toContent (turnsOf s i)) m = Inr reply"
      and "(case genContent e [\<lparr>role = ''user'', parts = [titlePrompt m]\<rparr>] of
              Inl _ \<Rightarrow> ''New Chat'' | Inr t \<Rightarrow> orElse (map_option trim t) ''New Chat'') = T"
  shows "\<exists>b s'. processChat e i m s = (Inr b, s') \<and>
           apiKeys s' = apiKeys s \<and>
           chatSessions s' =
             (if untitled (find (\<lambda>r. id_s r = i) (chatSessions s))
              then map (\<lambda>r. if id_s r = i then r\<lparr>title := Some T\<rparr> else r) (chatSessions s)
              else chatSessions s) \<and>
           messages s' = messages s @ [newMessage s m ''user'' i, b] \<and>
           content b = orElse reply ''No response text'' \<and> sender b = ''bot'' \<and>
           chatSessionId b = i \<and> createdAt_m b = Suc (clock s) \<and>
           oracleCalls s' = oracleCalls s @
              (if untitled (find (\<lambda>r. id_s r = i) (chatSessions s))
               then [GenerateContent [\<lparr>role = ''user'', parts = [titlePrompt m]\<rparr>]] else [])
              @ [SendMessage (map toContent (turnsOf s i)) m]"
proof (cases "untitled (find (\<lambda>r. id_s r = i) (chatSessions s))")
  case True
  with assms show ?thesis
    by (simp add: processChat_def await_def resolve_def reliable_calls history_after_append_row
        newMessage_def turnsOf_def del: if_image_distrib)
next
  case False
  with assms show ?thesis
    by (simp add: processChat_def await_def resolve_def reliable_calls history_after_append_row
        newMessage_def turnsOf_def del: if_image_distrib)
qed

lemma owns_find:
  "owns s k i \<Longrightarrow> \<exists>r. find (\<lambda>r. id_s r = i \<and> apiKeyId r = id_k k) (chatSessions s) = Some r"
  unfolding owns_def by (cases "find (\<lambda>r. id_s r = i \<and> apiKeyId r = id_k k) (chatSessions s)")
    (auto simp: find_None_iff)

lemma owns_exists: "owns s k i \<Longrightarrow> i \<in> id_s ` set (chatSessions s)"
  unfolding owns_def by auto

lemma chatMessage_owned:
  assumes "reliable e" "owns s k i"
      and "body_sessionId req = Some i" "i \<noteq> 0" "body_message req = Some m" "m \<noteq> []"
  shows "chatMessage e req k s =
     (case processChat e i m (s\<lparr>storeCalls := storeCalls s @ [ChatSession_findFirst i (id_k k)]\<rparr>) of
        (Inr b, s') \<Rightarrow> (Response 200 (MessageBody b), s')
      | (Inl err, s') \<Rightarrow>
          (Response 500 (ErrorBody ''Something went wrong processing the AI response''), s'))"
proof -
  from owns_find[OF assms(2)] obtain r where
    "find (\<lambda>r. id_s r = i \<and> apiKeyId r = id_k k) (chatSessions s) = Some r" by blast
  with assms show ?thesis
    by (simp add: chatMessage_def await_def resolve_def chatSession_findFirst_def
        storeCall_reliable split: prod.splits sum.splits)
qed

lemma logged_sameTables [simp]:
  "turnsOf (s\<lparr>storeCalls := l\<rparr>) i = turnsOf s i"
  "newMessage (s\<lparr>storeCalls := l\<rparr>) c w i = newMessage s c w i"
  "consistent (s\<lparr>storeCalls := l\<rparr>) = consistent s"
  by (simp_all add: turnsOf_def newMessage_def consistent_def)

subsection \<open>Authentication\<close>

text \<open>
  Claim C10. When the \<^verbatim>\<open>x-api-key\<close> header is absent, or arrives as an array of
  strings instead of one string (or is the empty string), \<^verbatim>\<open>authenticateApiKey\<close>
  answers 401 and returns the state it was given, logs included: no store call has been
  issued. The answer is the same whatever the route handler is, so the handler has
  not run; in particular every authenticated route answers 401 and leaves the state alone.
\<close>

theorem authenticateApiKey_no_single_key:
  assumes "x_api_key req = Absent \<or> x_api_key req = Several ks \<or> x_api_key req = Single []"
  shows "authenticateApiKey e req handler s =
           (Response 401 (ErrorBody ''API key is missing or invalid''), s)
       \<and> (rt \<noteq> KeysGenerate \<longrightarrow>
            serve rt e req s = (Response 401 (ErrorBody ''API key is missing or invalid''), s))"
  using assms by (cases rt) (auto simp: authenticateApiKey_def)

theorem authenticateApiKey_no_single_key_witness:
  "authenticateApiKey (demoEnv (Inl OracleError) (Inl OracleError))
     (demoRequest (Several [''key-a'', ''key-a'']) 2 ''Hi'')
     (\<lambda>k s. (Response 200 (ApiKeyBody k), initial)) demoState
     = (Response 401 (ErrorBody ''API key is missing or invalid''), demoState)
   \<and> serve ChatMessage (demoEnv (Inl OracleError) (Inl OracleError))
       (demoRequest (Several [''key-a'', ''key-a'']) 2 ''Hi'') demoState
     = (Response 401 (ErrorBody ''API key is missing or invalid''), demoState)"
  using authenticateApiKey_no_single_key
    [where req = "demoRequest (Several [''key-a'', ''key-a'']) 2 ''Hi''"
       and ks = "[''key-a'', ''key-a'']" and rt = ChatMessage
       and e = "demoEnv (Inl OracleError) (Inl OracleError)"
       and handler = "\<lambda>k s. (Response 200 (ApiKeyBody k), initial)" and s = demoState]
  by (simp add: demoRequest_def)

subsection \<open>The concrete system\<close>

lemma consistent_demoState: "consistent demoState"
  by (simp add: consistent_def demoState_def)

lemma owns_demoState: "owns demoState tenantA 2" "owns demoState tenantB 1"
  by (simp_all add: owns_def demoState_def tenantA_def tenantB_def)

lemma turnsOf_demoState: "turnsOf demoState 2 = []"
  by (simp add: turnsOf_def demoState_def)

subsection \<open>When the Oracle fails or has nothing to say\<close>

text \<open>
  Claim C3. A tenant sends a valid message to a session it owns, the store is reliable, and
  the reply call of the Oracle (made with the transcript of the session's earlier turns and
  the new text) rejects. Then \<^verbatim>\<open>processChat\<close> rejects with that error, the handler
  answers 500, and the message table has grown by exactly one row: the user turn, with
  sender \<^verbatim>\<open>user\<close> and the text sent. No bot turn is stored, and the state is still
  consistent.
\<close>

theorem oracle_error_keeps_user_turn:
  assumes "reliable e" "consistent s" "owns s k i"
      and "body_sessionId req = Some i" "i \<noteq> 0" "body_message req = Some m" "m \<noteq> []"
      and "chatSend e (map toContent (turnsOf s i)) m = Inl err"
  shows "\<exists>s1 s'. processChat e i m s = (Inl err, s1) \<and>
           messages s1 = messages s @ [newMessage s m ''user'' i] \<and>
           chatMessage e req k s =
             (Response 500 (ErrorBody ''Something went wrong processing the AI response''), s') \<and>
           messages s' = messages s @ [newMessage s m ''user'' i] \<and>
           turnsOf s' i = turnsOf s i @ [newMessage s m ''user'' i] \<and>
           sender (newMessage s m ''user'' i) = ''user'' \<and>
           content (newMessage s m ''user'' i) = m \<and>
           consistent s'"
proof -
  let ?s0 = "s\<lparr>storeCalls := storeCalls s @ [ChatSession_findFirst i (id_k k)]\<rparr>"
  have i: "i \<in> id_s ` set (chatSessions s)" by (rule owns_exists[OF assms(3)])
  from processChat_rejected[OF assms(1,2) i assms(8) refl]
  obtain s1 where s1: "processChat e i m s = (Inl err, s1)"
    "messages s1 = messages s @ [newMessage s m ''user'' i]" by blast
  have "consistent ?s0" "i \<in> id_s ` set (chatSessions ?s0)"
    "chatSend e (map toContent (turnsOf ?s0 i)) m = Inl err"
    using assms(2,8) i by simp_all
  from processChat_rejected[OF assms(1) this refl]
  obtain s' where s': "processChat e i m ?s0 = (Inl err, s')"
    "messages s' = messages s @ [newMessage s m ''user'' i]" by auto
  have out: "chatMessage e req k s =
      (Response 500 (ErrorBody ''Something went wrong processing the AI response''), s')"
    by (simp add: chatMessage_owned[OF assms(1,3-7)] s'(1))
  from chatMessage_consistent[OF assms(2) out] have "consistent s'" .
  with s1 s' out show ?thesis
    by (simp add: turnsOf_def newMessage_def)
qed

theorem oracle_error_keeps_user_turn_witness:
  "reliable (demoEnv (Inr (Some ''Plan'')) (Inl OracleError)) \<and> consistent demoState \<and>
   owns demoState tenantA 2 \<and>
   chatSend (demoEnv (Inr (Some ''Plan'')) (Inl OracleError))
     (map toContent (turnsOf demoState 2)) ''Hi'' = Inl OracleError \<and>
   (\<exists>s'. chatMessage (demoEnv (Inr (Some ''Plan'')) (Inl OracleError))
            (demoRequest (Single ''key-a'') 2 ''Hi'') tenantA demoState =
            (Response 500 (ErrorBody ''Something went wrong processing the AI response''), s') \<and>
          messages s' = messages demoState @ [newMessage demoState ''Hi'' ''user'' 2])"
proof -
  have h: "chatSend (demoEnv (Inr (Some ''Plan'')) (Inl OracleError))
     (map toContent (turnsOf demoState 2)) ''Hi'' = Inl OracleError"
    by (simp add: demoEnv_def)
  have r: "body_sessionId (demoRequest (Single ''key-a'') 2 ''Hi'') = Some 2"
    "body_message (demoRequest (Single ''key-a'') 2 ''Hi'') = Some ''Hi''"
    by (simp_all add: demoRequest_def)
  from oracle_error_keeps_user_turn[OF reliable_demoEnv consistent_demoState owns_demoState(1)
      r(1) _ r(2) _ h]
  show ?thesis
    using reliable_demoEnv consistent_demoState owns_demoState(1) h by auto
qed

text \<open>
  Claim C5. Under the same conditions, when the reply call resolves with no text (undefined
  or the empty string), the handler answers 200 with the stored bot turn, whose content is
  the placeholder \<^verbatim>\<open>No response text\<close>; the message table has grown by the user turn and
  this bot turn.
\<close>

theorem empty_reply_gets_placeholder:
  assumes "reliable e" "consistent s" "owns s k i"
      and "body_sessionId req = Some i" "i \<noteq> 0" "body_message req = Some m" "m \<noteq> []"
      and "chatSend e (map toContent (turnsOf s i)) m = Inr reply"
      and "reply = None \<or> reply = Some []"
  shows "\<exists>b s'. chatMessage e req k s = (Response 200 (MessageBody b), s') \<and>
           content b = ''No response text'' \<and> sender b = ''bot'' \<and> chatSessionId b = i \<and>
           messages s' = messages s @ [newMessage s m ''user'' i, b]"
proof -
  let ?s0 = "s\<lparr>storeCalls := storeCalls s @ [ChatSession_findFirst i (id_k k)]\<rparr>"
  have "consistent ?s0" "i \<in> id_s ` set (chatSessions ?s0)"
    "chatSend e (map toContent (turnsOf ?s0 i)) m = Inr reply"
    using assms(2,8) owns_exists[OF assms(3)] by simp_all
  from processChat_resolved[OF assms(1) this refl]
  obtain b s' where s': "processChat e i m ?s0 = (Inr b, s')"
    "messages s' = messages s @ [newMessage s m ''user'' i, b]"
    "content b = orElse reply ''No response text''" "sender b = ''bot''" "chatSessionId b = i"
    by auto
  have "orElse reply ''No response text'' = ''No response text''"
    using assms(9) by (auto simp: orElse_def)
  with s' show ?thesis
    by (simp add: chatMessage_owned[OF assms(1,3-7)])
qed

theorem empty_reply_gets_placeholder_witness:
  "reliable (demoEnv (Inr (Some ''Plan'')) (Inr (Some ''''))) \<and> consistent demoState \<and>
   owns demoState tenantA 2 \<and>
   chatSend (demoEnv (Inr (Some ''Plan'')) (Inr (Some '''')))
     (map toContent (turnsOf demoState 2)) ''Hi'' = Inr (Some '''') \<and>
   (\<exists>b s'. chatMessage (demoEnv (Inr (Some ''Plan'')) (Inr (Some '''')))
            (demoRequest (Single ''key-a'') 2 ''Hi'') tenantA demoState =
            (Response 200 (MessageBody b), s') \<and>
          content b = ''No response text'' \<and> sender b = ''bot'' \<and> chatSessionId b = 2 \<and>
          messages s' = messages demoState @ [newMessage demoState ''Hi'' ''user'' 2, b])"
proof -
  have h: "chatSend (demoEnv (Inr (Some ''Plan'')) (Inr (Some '''')))
     (map toContent (turnsOf demoState 2)) ''Hi'' = Inr (Some '''')"
    by (simp add: demoEnv_def)
  have r: "body_sessionId (demoRequest (Single ''key-a'') 2 ''Hi'') = Some 2"
    "body_message (demoRequest (Single ''key-a'') 2 ''Hi'') = Some ''Hi''"
    by (simp_all add: demoRequest_def)
  from empty_reply_gets_placeholder[OF reliable_demoEnv consistent_demoState owns_demoState(1)
      r(1) _ r(2) _ h]
  show ?thesis
    using reliable_demoEnv consistent_demoState owns_demoState(1) h by auto
qed

lemma find_distinct_id:
  assumes "distinct (map id_s cs)" "x \<in> set cs"
  shows "find (\<lambda>r. id_s r = id_s x) cs = Some x"
  using assms by (induction cs) (auto simp: image_iff)

subsection \<open>What the Oracle is given\<close>

text \<open>
  Claim C4. On a reliable store, in a consistent state, one call of \<^verbatim>\<open>processChat\<close> on
  an existing session makes exactly one reply call to the Oracle, as its last Oracle call
  (a title call may precede it). Let \<open>history\<close> be what \<^verbatim>\<open>findMany\<close> returns after
  the user turn has been appended: the session's rows sorted by \<^verbatim>\<open>createdAt\<close>. It is
  the earlier turns followed by the new user row. The transcript maps every row to its
  text with role \<^verbatim>\<open>user\<close> for sender \<^verbatim>\<open>user\<close> and role \<^verbatim>\<open>model\<close> otherwise (so for
  \<^verbatim>\<open>bot\<close>), in the same order. The Oracle receives the transcript without its last
  entry as prior context, which is the transcript of the earlier turns, and the text \<open>m\<close>
  as the current turn; the entry dropped is the one of the new user row, whose text is
  \<open>m\<close>. So the new text is passed exactly once.
\<close>

theorem oracle_receives_prior_context_and_current_turn:
  assumes "reliable e" "consistent s" "i \<in> id_s ` set (chatSessions s)"
  shows "let history = sort_key createdAt_m
                 (filter (\<lambda>x. chatSessionId x = i) (messages s @ [newMessage s m ''user'' i]))
         in (\<exists>r s' pre. processChat e i m s = (r, s') \<and>
               oracleCalls s' = oracleCalls s @ pre @
                  [SendMessage (butlast (map toContent history)) m] \<and>
               (pre = [] \<or> pre = [GenerateContent [\<lparr>role = ''user'', parts = [titlePrompt m]\<rparr>]])) \<and>
            history = turnsOf s i @ [newMessage s m ''user'' i] \<and>
            butlast (map toContent history) = map toContent (turnsOf s i) \<and>
            last (map toContent history) = \<lparr>role = ''user'', parts = [m]\<rparr> \<and>
            (\<forall>x. parts (toContent x) = [content x] \<and>
                 (sender x = ''user'' \<longrightarrow> role (toContent x) = ''user'') \<and>
                 (sender x = ''bot'' \<longrightarrow> role (toContent x) = ''model''))"
proof -
  have h: "sort_key createdAt_m
      (filter (\<lambda>x. chatSessionId x = i) (messages s @ [newMessage s m ''user'' i]))
      = turnsOf s i @ [newMessage s m ''user'' i]"
    using history_after_append_row[OF assms(2), of i _ i m "''user''"]
    by (simp add: newMessage_def turnsOf_def)
  have calls: "\<exists>r s' pre. processChat e i m s = (r, s') \<and>
               oracleCalls s' = oracleCalls s @ pre @ [SendMessage (map toContent (turnsOf s i)) m] \<and>
               (pre = [] \<or> pre = [GenerateContent [\<lparr>role = ''user'', parts = [titlePrompt m]\<rparr>]])"
  proof (cases "chatSend e (map toContent (turnsOf s i)) m")
    case (Inl err)
    from processChat_rejected[OF assms Inl refl] show ?thesis
      by (cases "untitled (find (\<lambda>r. id_s r = i) (chatSessions s))") auto
  next
    case (Inr reply)
    from processChat_resolved[OF assms Inr refl] show ?thesis
      by (cases "untitled (find (\<lambda>r. id_s r = i) (chatSessions s))") auto
  qed
  show ?thesis
    unfolding Let_def h using calls
    by (simp add: toContent_def newMessage_def)
qed

theorem oracle_receives_prior_context_and_current_turn_witness:
  "reliable (demoEnv (Inr (Some ''Plan'')) (Inr (Some ''Sure''))) \<and> consistent demoState \<and>
   (1::int) \<in> id_s ` set (chatSessions demoState) \<and>
   (\<exists>r s' pre. processChat (demoEnv (Inr (Some ''Plan'')) (Inr (Some ''Sure''))) 1 ''More'' demoState = (r, s') \<and>
      oracleCalls s' = pre @
        [SendMessage [\<lparr>role = ''user'', parts = [''Hi'']\<rparr>, \<lparr>role = ''model'', parts = [''Hello'']\<rparr>] ''More''])"
proof -
  have i: "(1::int) \<in> id_s ` set (chatSessions demoState)"
    by (simp add: demoState_def)
  have t: "map toContent (turnsOf demoState 1) =
      [\<lparr>role = ''user'', parts = [''Hi'']\<rparr>, \<lparr>role = ''model'', parts = [''Hello'']\<rparr>]"
    "oracleCalls demoState = []"
    by (simp_all add: turnsOf_def demoState_def toContent_def)
  from oracle_receives_prior_context_and_current_turn
    [OF reliable_demoEnv[of "Inr (Some ''Plan'')" "Inr (Some ''Sure'')"] consistent_demoState i,
     where m = "''More''"]
  show ?thesis
    using reliable_demoEnv consistent_demoState i unfolding Let_def t by auto
qed

subsection \<open>Titles\<close>

text \<open>
  Claim C6. A session with a null title takes a turn on a reliable store, and the title
  call of the Oracle rejects, or resolves with no text, or with only white space. Then
  \<^verbatim>\<open>generateSessionTitle\<close> resolves (in every state) with \<^verbatim>\<open>New Chat\<close>, the session
  row carries that title afterwards, and the turn goes on as it would have otherwise: the
  user turn is stored, and \<^verbatim>\<open>processChat\<close> rejects only if the reply call does (with
  that call's error), and otherwise resolves with the stored bot turn.
\<close>

theorem title_falls_back_to_default:
  assumes "reliable e" "consistent s" "x \<in> set (chatSessions s)" "id_s x = i" "title x = None"
      and "genContent e [\<lparr>role = ''user'', parts = [titlePrompt m]\<rparr>] = Inl err \<or>
           genContent e [\<lparr>role = ''user'', parts = [titlePrompt m]\<rparr>] = Inr None \<or>
           (\<exists>t. genContent e [\<lparr>role = ''user'', parts = [titlePrompt m]\<rparr>] = Inr (Some t) \<and>
                trim t = [])"
  shows "(\<forall>s0. \<exists>s1. generateSessionTitle e m s0 = (Inr ''New Chat'', s1)) \<and>
         (\<exists>r s'. processChat e i m s = (r, s') \<and>
            x\<lparr>title := Some ''New Chat''\<rparr> \<in> set (chatSessions s') \<and>
            (case chatSend e (map toContent (turnsOf s i)) m of
               Inl err' \<Rightarrow> r = Inl err' \<and> messages s' = messages s @ [newMessage s m ''user'' i]
             | Inr reply \<Rightarrow>
                 (\<exists>b. r = Inr b \<and> content b = orElse reply ''No response text'' \<and>
                      sender b = ''bot'' \<and>
                      messages s' = messages s @ [newMessage s m ''user'' i, b])))"
proof -
  have T: "(case genContent e [\<lparr>role = ''user'', parts = [titlePrompt m]\<rparr>] of
              Inl _ \<Rightarrow> ''New Chat'' | Inr t \<Rightarrow> orElse (map_option trim t) ''New Chat'')
           = ''New Chat''"
    using assms(6) by (auto simp: orElse_def)
  have i: "i \<in> id_s ` set (chatSessions s)" using assms(3,4) by auto
  have "find (\<lambda>r. id_s r = i) (chatSessions s) = Some x"
    using find_distinct_id[OF _ assms(3)] assms(2,4) by (simp add: consistent_def)
  then have u: "untitled (find (\<lambda>r. id_s r = i) (chatSessions s))"
    using assms(5) by (simp add: untitled_def)
  have x': "x\<lparr>title := Some ''New Chat''\<rparr> \<in>
      set (map (\<lambda>r. if id_s r = i then r\<lparr>title := Some ''New Chat''\<rparr> else r) (chatSessions s))"
    using assms(3,4) by (auto simp: image_iff intro!: bexI[of _ x])
  have "\<exists>r s'. processChat e i m s = (r, s') \<and>
            x\<lparr>title := Some ''New Chat''\<rparr> \<in> set (chatSessions s') \<and>
            (case chatSend e (map toContent (turnsOf s i)) m of
               Inl err' \<Rightarrow> r = Inl err' \<and> messages s' = messages s @ [newMessage s m ''user'' i]
             | Inr reply \<Rightarrow>
                 (\<exists>b. r = Inr b \<and> content b = orElse reply ''No response text'' \<and>
                      sender b = ''bot'' \<and>
                      messages s' = messages s @ [newMessage s m ''user'' i, b]))"
  proof (cases "chatSend e (map toContent (turnsOf s i)) m")
    case (Inl err')
    from processChat_rejected[OF assms(1,2) i Inl T] obtain s' where
      s': "processChat e i m s = (Inl err', s')"
        "chatSessions s' =
           (if untitled (find (\<lambda>r. id_s r = i) (chatSessions s))
            then map (\<lambda>r. if id_s r = i then r\<lparr>title := Some ''New Chat''\<rparr> else r) (chatSessions s)
            else chatSessions s)"
        "messages s' = messages s @ [newMessage s m ''user'' i]"
      by blast
    from s'(2) u x' have "x\<lparr>title := Some ''New Chat''\<rparr> \<in> set (chatSessions s')"
      by (simp only: if_True)
    with s'(1,3) Inl show ?thesis by simp
  next
    case (Inr reply)
    from processChat_resolved[OF assms(1,2) i Inr T] obtain b s' where
      s': "processChat e i m s = (Inr b, s')"
        "chatSessions s' =
           (if untitled (find (\<lambda>r. id_s r = i) (chatSessions s))
            then map (\<lambda>r. if id_s r = i then r\<lparr>title := Some ''New Chat''\<rparr> else r) (chatSessions s)
            else chatSessions s)"
        "messages s' = messages s @ [newMessage s m ''user'' i, b]"
        "content b = orElse reply ''No response text''" "sender b = ''bot''"
      by blast
    from s'(2) u x' have "x\<lparr>title := Some ''New Chat''\<rparr> \<in> set (chatSessions s')"
      by (simp only: if_True)
    with s'(1,3,4,5) Inr show ?thesis by simp
  qed
  then show ?thesis by (simp add: generateSessionTitle_eq T)
qed


theorem title_falls_back_to_default_witness:
  "reliable (demoEnv (Inl OracleError) (Inr (Some ''Sure''))) \<and> consistent demoState \<and>
   \<lparr>id_s = 2, title = None, createdAt_s = 5, apiKeyId = 1\<rparr> \<in> set (chatSessions demoState) \<and>
   genContent (demoEnv (Inl OracleError) (Inr (Some ''Sure'')))
     [\<lparr>role = ''user'', parts = [titlePrompt ''Hi'']\<rparr>] = Inl OracleError \<and>
   (\<exists>b s'. processChat (demoEnv (Inl OracleError) (Inr (Some ''Sure''))) 2 ''Hi'' demoState = (Inr b, s') \<and>
      \<lparr>id_s = 2, title = Some ''New Chat'', createdAt_s = 5, apiKeyId = 1\<rparr> \<in> set (chatSessions s') \<and>
      content b = ''Sure'')"
proof -
  have x: "\<lparr>id_s = 2, title = None, createdAt_s = 5, apiKeyId = 1\<rparr> \<in> set (chatSessions demoState)"
    by (simp add: demoState_def)
  have g: "genContent (demoEnv (Inl OracleError) (Inr (Some ''Sure'')))
     [\<lparr>role = ''user'', parts = [titlePrompt ''Hi'']\<rparr>] = Inl OracleError"
    by (simp add: demoEnv_def)
  have c: "chatSend (demoEnv (Inl OracleError) (Inr (Some ''Sure'')))
      (map toContent (turnsOf demoState 2)) ''Hi'' = Inr (Some ''Sure'')"
    by (simp add: demoEnv_def)
  from title_falls_back_to_default[OF reliable_demoEnv consistent_demoState x _ _ disjI1[OF g]]
  show ?thesis
    using reliable_demoEnv consistent_demoState x g by (auto simp: orElse_def c)
qed

subsection \<open>The title is assigned once\<close>

lemma same_id_same_row:
  assumes "distinct (map id_s cs)" "x \<in> set cs" "y \<in> set cs" "id_s x = id_s y"
  shows "x = y"
  using assms by (auto simp: distinct_map dest: inj_onD)

lemma retitled_member:
  "x \<in> set cs \<Longrightarrow>
   (if id_s x = i then x\<lparr>title := Some t\<rparr> else x)
     \<in> set (map (\<lambda>r. if id_s r = i then r\<lparr>title := Some t\<rparr> else r) cs)"
  unfolding set_map by (rule imageI)

text \<open>
  Claim C2. One call of \<^verbatim>\<open>processChat\<close> in a consistent state, in any surroundings and
  whatever its result: the table holds the same sessions afterwards; every row with a
  non-null title is still there, unchanged; a row that has changed is the row of the
  session \<open>i\<close>, had a null title, and now has a non-empty one. On a reliable store the
  row of the session \<open>i\<close> with a null title does get a non-empty title. The state is
  consistent again, so the same holds for every later call: a title goes from null to
  non-null at most once and never changes afterwards.
\<close>

theorem title_assigned_at_most_once:
  assumes "consistent s" "processChat e i m s = (r, s')"
  shows "map id_s (chatSessions s') = map id_s (chatSessions s) \<and>
         (\<forall>x \<in> set (chatSessions s). title x \<noteq> None \<longrightarrow> x \<in> set (chatSessions s')) \<and>
         (\<forall>x \<in> set (chatSessions s). x \<notin> set (chatSessions s') \<longrightarrow>
            id_s x = i \<and> title x = None \<and>
            (\<exists>t. t \<noteq> [] \<and> x\<lparr>title := Some t\<rparr> \<in> set (chatSessions s'))) \<and>
         (reliable e \<longrightarrow>
            (\<forall>x \<in> set (chatSessions s). id_s x = i \<and> title x = None \<longrightarrow>
               (\<exists>t. t \<noteq> [] \<and> x\<lparr>title := Some t\<rparr> \<in> set (chatSessions s')))) \<and>
         consistent s'"
proof -
  have d: "distinct (map id_s (chatSessions s))"
    and nonempty: "\<forall>x \<in> set (chatSessions s). title x \<noteq> Some []"
    using assms(1) by (simp_all add: consistent_def)
  from processChat_effect[OF assms(2)]
  have cases: "chatSessions s' = chatSessions s \<or>
          (untitled (find (\<lambda>r. id_s r = i) (chatSessions s)) \<and>
           (\<exists>t. t \<noteq> [] \<and> chatSessions s' =
              map (\<lambda>r. if id_s r = i then r\<lparr>title := Some t\<rparr> else r) (chatSessions s)))"
    by blast
  have first3: "map id_s (chatSessions s') = map id_s (chatSessions s) \<and>
         (\<forall>x \<in> set (chatSessions s). title x \<noteq> None \<longrightarrow> x \<in> set (chatSessions s')) \<and>
         (\<forall>x \<in> set (chatSessions s). x \<notin> set (chatSessions s') \<longrightarrow>
            id_s x = i \<and> title x = None \<and>
            (\<exists>t. t \<noteq> [] \<and> x\<lparr>title := Some t\<rparr> \<in> set (chatSessions s')))"
    using cases
  proof
    assume "chatSessions s' = chatSessions s"
    then show ?thesis by simp
  next
    assume "untitled (find (\<lambda>r. id_s r = i) (chatSessions s)) \<and>
           (\<exists>t. t \<noteq> [] \<and> chatSessions s' =
              map (\<lambda>r. if id_s r = i then r\<lparr>title := Some t\<rparr> else r) (chatSessions s))"
    then obtain t x0 where t: "t \<noteq> []"
      and cs': "chatSessions s' =
              map (\<lambda>r. if id_s r = i then r\<lparr>title := Some t\<rparr> else r) (chatSessions s)"
      and x0: "find (\<lambda>r. id_s r = i) (chatSessions s) = Some x0"
      and u: "title x0 = None \<or> title x0 = Some []"
      by (auto simp: untitled_def split: option.splits)
    from x0 have x0': "x0 \<in> set (chatSessions s)" "id_s x0 = i"
      by (auto simp: find_Some_iff)
    with u nonempty have none: "title x0 = None" by auto
    have only: "x = x0" if "x \<in> set (chatSessions s)" "id_s x = i" for x
      using same_id_same_row[OF d that(1) x0'(1)] that(2) x0'(2) by simp
    have keep: "x \<in> set (chatSessions s')" if "x \<in> set (chatSessions s)" "id_s x \<noteq> i" for x
      using retitled_member[OF that(1), of i t] that(2) cs' by simp
    have change: "x\<lparr>title := Some t\<rparr> \<in> set (chatSessions s')"
      if "x \<in> set (chatSessions s)" "id_s x = i" for x
      using retitled_member[OF that(1), of i t] that(2) cs' by simp
    have "map id_s (chatSessions s') = map id_s (chatSessions s)"
      unfolding cs' by (rule map_id_s_retitle)
    moreover have "x \<in> set (chatSessions s')"
      if "x \<in> set (chatSessions s)" "title x \<noteq> None" for x
    proof (cases "id_s x = i")
      case True
      with only[OF that(1)] none that(2) show ?thesis by simp
    next
      case False
      with keep[OF that(1)] show ?thesis .
    qed
    moreover have "id_s x = i \<and> title x = None \<and>
            (\<exists>t. t \<noteq> [] \<and> x\<lparr>title := Some t\<rparr> \<in> set (chatSessions s'))"
      if "x \<in> set (chatSessions s)" "x \<notin> set (chatSessions s')" for x
    proof -
      from keep[OF that(1)] that(2) have i: "id_s x = i" by auto
      with only[OF that(1)] none have "title x = None" by simp
      moreover from change[OF that(1) i] t
      have "\<exists>t. t \<noteq> [] \<and> x\<lparr>title := Some t\<rparr> \<in> set (chatSessions s')" by auto
      ultimately show ?thesis using i by simp
    qed
    ultimately show ?thesis by simp
  qed
  have fourth: "\<exists>t. t \<noteq> [] \<and> x\<lparr>title := Some t\<rparr> \<in> set (chatSessions s')"
    if rel: "reliable e" and x: "x \<in> set (chatSessions s)" "id_s x = i" "title x = None" for x
  proof -
    define T where "T = (case genContent e [\<lparr>role = ''user'', parts = [titlePrompt m]\<rparr>] of
              Inl _ \<Rightarrow> ''New Chat'' | Inr t \<Rightarrow> orElse (map_option trim t) ''New Chat'')"
    have "''New Chat'' \<noteq> []" by simp
    then have T: "T \<noteq> []"
      unfolding T_def by (simp add: orElse_nonempty split: sum.split)
    have i: "i \<in> id_s ` set (chatSessions s)" using x by auto
    have "find (\<lambda>r. id_s r = i) (chatSessions s) = Some x"
      using find_distinct_id[OF d x(1)] x(2) by simp
    then have u: "untitled (find (\<lambda>r. id_s r = i) (chatSessions s))"
      using x(3) by (simp add: untitled_def)
    have "chatSessions s' =
        map (\<lambda>r. if id_s r = i then r\<lparr>title := Some T\<rparr> else r) (chatSessions s)"
    proof (cases "chatSend e (map toContent (turnsOf s i)) m")
      case (Inl err)
      from processChat_rejected[OF rel assms(1) i Inl T_def[symmetric]] assms(2) u
      show ?thesis by (auto simp only: if_True)
    next
      case (Inr reply)
      from processChat_resolved[OF rel assms(1) i Inr T_def[symmetric]] assms(2) u
      show ?thesis by (auto simp only: if_True)
    qed
    with retitled_member[OF x(1), of i T] x(2) T show ?thesis by auto
  qed
  from fourth have "reliable e \<longrightarrow>
            (\<forall>x \<in> set (chatSessions s). id_s x = i \<and> title x = None \<longrightarrow>
               (\<exists>t. t \<noteq> [] \<and> x\<lparr>title := Some t\<rparr> \<in> set (chatSessions s')))"
    by simp
  with first3 processChat_consistent[OF assms] show ?thesis by simp
qed

theorem title_assigned_at_most_once_witness:
  "consistent demoState \<and> reliable (demoEnv (Inr (Some ''Plan'')) (Inr (Some ''Sure''))) \<and>
   (\<exists>r s'. processChat (demoEnv (Inr (Some ''Plan'')) (Inr (Some ''Sure''))) 1 ''More'' demoState = (r, s') \<and>
      \<lparr>id_s = 1, title = Some ''Trip'', createdAt_s = 2, apiKeyId = 2\<rparr> \<in> set (chatSessions s') \<and>
      \<lparr>id_s = 2, title = None, createdAt_s = 5, apiKeyId = 1\<rparr> \<in> set (chatSessions s') \<and>
      map id_s (chatSessions s') = [1, 2]) \<and>
   (\<exists>r s' t. processChat (demoEnv (Inr (Some ''Plan'')) (Inr (Some ''Sure''))) 2 ''Hi'' demoState = (r, s') \<and>
      \<lparr>id_s = 1, title = Some ''Trip'', createdAt_s = 2, apiKeyId = 2\<rparr> \<in> set (chatSessions s') \<and>
      t \<noteq> [] \<and>
      \<lparr>id_s = 2, title = Some t, createdAt_s = 5, apiKeyId = 1\<rparr> \<in> set (chatSessions s'))"
proof -
  let ?e = "demoEnv (Inr (Some ''Plan'')) (Inr (Some ''Sure''))"
  have rows: "chatSessions demoState =
      [\<lparr>id_s = 1, title = Some ''Trip'', createdAt_s = 2, apiKeyId = 2\<rparr>,
       \<lparr>id_s = 2, title = None, createdAt_s = 5, apiKeyId = 1\<rparr>]"
    by (simp add: demoState_def)
  have mem: "\<lparr>id_s = 1, title = Some ''Trip'', createdAt_s = 2, apiKeyId = 2\<rparr> \<in> set (chatSessions demoState)"
    "\<lparr>id_s = 2, title = None, createdAt_s = 5, apiKeyId = 1\<rparr> \<in> set (chatSessions demoState)"
    by (simp_all add: rows)
  obtain r s' where run: "processChat ?e 1 ''More'' demoState = (r, s')"
    by (cases "processChat ?e 1 ''More'' demoState")
  note th = title_assigned_at_most_once[OF consistent_demoState run]
  note ids = th[THEN conjunct1]
  note kept = th[THEN conjunct2, THEN conjunct1]
  note changed = th[THEN conjunct2, THEN conjunct2, THEN conjunct1]
  from bspec[OF kept mem(1)]
  have f1: "\<lparr>id_s = 1, title = Some ''Trip'', createdAt_s = 2, apiKeyId = 2\<rparr> \<in> set (chatSessions s')"
    by simp
  from bspec[OF changed mem(2)]
  have f2: "\<lparr>id_s = 2, title = None, createdAt_s = 5, apiKeyId = 1\<rparr> \<in> set (chatSessions s')"
    by (cases "\<lparr>id_s = 2, title = None, createdAt_s = 5, apiKeyId = 1\<rparr> \<in> set (chatSessions s')")
       simp_all
  from ids have f3: "map id_s (chatSessions s') = [1, 2]"
    by (simp add: rows)
  note first = f1 f2 f3
  obtain r2 s2 where run2: "processChat ?e 2 ''Hi'' demoState = (r2, s2)"
    by (cases "processChat ?e 2 ''Hi'' demoState")
  note th2 = title_assigned_at_most_once[OF consistent_demoState run2]
  note kept2 = th2[THEN conjunct2, THEN conjunct1]
  note set2 = th2[THEN conjunct2, THEN conjunct2, THEN conjunct2, THEN conjunct1,
      THEN mp, OF reliable_demoEnv]
  from bspec[OF kept2 mem(1)]
  have g1: "\<lparr>id_s = 1, title = Some ''Trip'', createdAt_s = 2, apiKeyId = 2\<rparr> \<in> set (chatSessions s2)"
    by simp
  from bspec[OF set2 mem(2)]
  have g2: "\<exists>t. t \<noteq> [] \<and> \<lparr>id_s = 2, title = Some t, createdAt_s = 5, apiKeyId = 1\<rparr> \<in> set (chatSessions s2)"
    by simp
  note second = g1 g2
  from second(2) obtain t where "t \<noteq> []"
    "\<lparr>id_s = 2, title = Some t, createdAt_s = 5, apiKeyId = 1\<rparr> \<in> set (chatSessions s2)" by blast
  with first second(1) run run2 consistent_demoState reliable_demoEnv show ?thesis
    by (intro conjI exI[of _ r] exI[of _ s'] exI[of _ r2] exI[of _ s2] exI[of _ t]) assumption+
qed

subsection \<open>Reading the history\<close>

lemma message_findMany_value:
  assumes "message_findMany e i s = (Inr h, s')"
  shows "h = sort_key createdAt_m (turnsOf s i) \<and> sameTables s s'"
  using assms by (auto simp: message_findMany_def storeCall_def turnsOf_def split: if_splits)

text \<open>
  Claim C7. When \<^verbatim>\<open>findMany\<close> on the messages of the session \<open>i\<close> succeeds, its result
  is sorted by \<^verbatim>\<open>createdAt\<close> (ascending) and holds exactly the session's rows, each as
  often as the table does; the tables are unchanged, and any further read of the state it
  leaves, in any surroundings, gives the same list if it succeeds. The handler of
  \<^verbatim>\<open>GET /api/chat/:sessionId\<close> answers 200 with such a list only. On a reliable store,
  appending a user turn and then a bot turn to an existing session without messages and
  reading the history gives these two rows in this order, with the senders \<^verbatim>\<open>user\<close> and
  \<^verbatim>\<open>bot\<close> and the texts given.
\<close>

theorem history_ascending_and_stable:
  "(message_findMany e i s = (Inr h, s') \<longrightarrow>
      sorted (map createdAt_m h) \<and> mset h = mset (turnsOf s i) \<and> sameTables s s' \<and>
      (\<forall>e2 h2 s2. message_findMany e2 i s' = (Inr h2, s2) \<longrightarrow> h2 = h)) \<and>
   (chatHistory e req k s = (Response 200 (HistoryBody h), s') \<longrightarrow>
      sorted (map createdAt_m h) \<and> mset h = mset (turnsOf s (param_sessionId req)) \<and>
      sameTables s s') \<and>
   (reliable e \<and> i \<in> id_s ` set (chatSessions s) \<and> turnsOf s i = [] \<longrightarrow>
      (\<exists>a b s1 s2 s3.
         message_create e u ''user'' i s = (Inr a, s1) \<and>
         message_create e v ''bot'' i s1 = (Inr b, s2) \<and>
         message_findMany e i s2 = (Inr [a, b], s3) \<and>
         content a = u \<and> sender a = ''user'' \<and> content b = v \<and> sender b = ''bot''))"
proof (intro conjI impI)
  assume run: "message_findMany e i s = (Inr h, s')"
  from message_findMany_value[OF run]
  have h: "h = sort_key createdAt_m (turnsOf s i)" and same: "sameTables s s'" by auto
  from same have t: "turnsOf s' i = turnsOf s i" by (simp add: sameTables_def turnsOf_def)
  show "sorted (map createdAt_m h)" by (simp add: h)
  show "mset h = mset (turnsOf s i)" by (simp add: h)
  show "sameTables s s'" by (rule same)
  show "\<forall>e2 h2 s2. message_findMany e2 i s' = (Inr h2, s2) \<longrightarrow> h2 = h"
  proof (intro allI impI)
    fix e2 h2 s2 assume "message_findMany e2 i s' = (Inr h2, s2)"
    from message_findMany_value[OF this] t h show "h2 = h" by simp
  qed
next
  assume run: "chatHistory e req k s = (Response 200 (HistoryBody h), s')"
  obtain r s1 where first: "chatSession_findFirst e (param_sessionId req) (id_k k) s = (r, s1)"
    by (cases "chatSession_findFirst e (param_sessionId req) (id_k k) s")
  from chatSession_findFirst_effect[OF first] have s1: "sameTables s s1" by simp
  obtain r2 s2 where second: "message_findMany e (param_sessionId req) s1 = (r2, s2)"
    by (cases "message_findMany e (param_sessionId req) s1")
  from run first second have "r2 = Inr h \<and> s2 = s'"
    by (auto simp: chatHistory_def await_def resolve_def split: sum.splits option.splits)
  with second message_findMany_value[of e "param_sessionId req" s1 h s'] s1
  have "h = sort_key createdAt_m (turnsOf s (param_sessionId req))" "sameTables s s'"
    by (auto simp: sameTables_def turnsOf_def)
  then show "sorted (map createdAt_m h)" "mset h = mset (turnsOf s (param_sessionId req))"
    "sameTables s s'"
    by simp_all
next
  assume a: "reliable e \<and> i \<in> id_s ` set (chatSessions s) \<and> turnsOf s i = []"
  then have "filter (\<lambda>m. chatSessionId m = i) (messages s) = []"
    by (simp add: turnsOf_def)
  with a show "\<exists>a b s1 s2 s3.
         message_create e u ''user'' i s = (Inr a, s1) \<and>
         message_create e v ''bot'' i s1 = (Inr b, s2) \<and>
         message_findMany e i s2 = (Inr [a, b], s3) \<and>
         content a = u \<and> sender a = ''user'' \<and> content b = v \<and> sender b = ''bot''"
    by (simp add: message_create_reliable message_findMany_reliable)
qed

theorem history_ascending_and_stable_witness:
  "(\<exists>h s'. message_findMany (demoEnv (Inl OracleError) (Inl OracleError)) 1 demoState = (Inr h, s') \<and>
      sorted (map createdAt_m h) \<and> mset h = mset (turnsOf demoState 1) \<and> length h = 2) \<and>
   (\<exists>h s'. chatHistory (demoEnv (Inl OracleError) (Inl OracleError))
        (demoRequest (Single ''key-b'') 1 []) tenantB demoState = (Response 200 (HistoryBody h), s') \<and>
      sorted (map createdAt_m h) \<and> mset h = mset (turnsOf demoState 1)) \<and>
   reliable (demoEnv (Inl OracleError) (Inl OracleError)) \<and>
   (2::int) \<in> id_s ` set (chatSessions demoState) \<and> turnsOf demoState 2 = [] \<and>
   (\<exists>a b s1 s2 s3.
      message_create (demoEnv (Inl OracleError) (Inl OracleError)) ''Hi'' ''user'' 2 demoState = (Inr a, s1) \<and>
      message_create (demoEnv (Inl OracleError) (Inl OracleError)) ''Hello'' ''bot'' 2 s1 = (Inr b, s2) \<and>
      message_findMany (demoEnv (Inl OracleError) (Inl OracleError)) 2 s2 = (Inr [a, b], s3) \<and>
      content a = ''Hi'' \<and> sender a = ''user'' \<and> content b = ''Hello'' \<and> sender b = ''bot'')"
proof -
  let ?e = "demoEnv (Inl OracleError) (Inl OracleError)"
  let ?req = "demoRequest (Single ''key-b'') 1 []"
  have i: "(2::int) \<in> id_s ` set (chatSessions demoState)"
    by (simp add: demoState_def)
  have len: "length (turnsOf demoState 1) = 2"
    by (simp add: turnsOf_def demoState_def)
  obtain h s' where read: "message_findMany ?e 1 demoState = (Inr h, s')"
    by (simp add: message_findMany_reliable reliable_demoEnv)
  obtain h2 s2 where get: "chatHistory ?e ?req tenantB demoState = (Response 200 (HistoryBody h2), s2)"
    by (simp add: chatHistory_def await_def resolve_def chatSession_findFirst_def
        message_findMany_reliable storeCall_reliable reliable_demoEnv demoRequest_def
        demoState_def tenantB_def)
  have p: "param_sessionId ?req = 1" by (simp add: demoRequest_def)
  note thm1 = history_ascending_and_stable
    [where e = ?e and i = 1 and s = demoState and h = h and s' = s']
  note thm2 = history_ascending_and_stable
    [where e = ?e and req = ?req and k = tenantB and s = demoState and h = h2 and s' = s2]
  note thm3 = history_ascending_and_stable
    [where e = ?e and i = 2 and s = demoState and u = "''Hi''" and v = "''Hello''"]
  from thm1 read have one: "sorted (map createdAt_m h) \<and> mset h = mset (turnsOf demoState 1)"
    by blast
  then have "length h = 2" using len by (metis size_mset)
  moreover from thm2 get p
  have "sorted (map createdAt_m h2) \<and> mset h2 = mset (turnsOf demoState 1)" by simp
  moreover from thm3 reliable_demoEnv i turnsOf_demoState
  have "\<exists>a b s1 s2 s3.
      message_create ?e ''Hi'' ''user'' 2 demoState = (Inr a, s1) \<and>
      message_create ?e ''Hello'' ''bot'' 2 s1 = (Inr b, s2) \<and>
      message_findMany ?e 2 s2 = (Inr [a, b], s3) \<and>
      content a = ''Hi'' \<and> sender a = ''user'' \<and> content b = ''Hello'' \<and> sender b = ''bot''"
    by simp
  ultimately show ?thesis
    using one read get reliable_demoEnv i turnsOf_demoState by blast
qed

subsection \<open>Tenant isolation\<close>

lemma not_owns_find:
  "\<not> owns s k i \<Longrightarrow> find (\<lambda>r. id_s r = i \<and> apiKeyId r = id_k k) (chatSessions s) = None"
  by (auto simp: owns_def find_None_iff)

text \<open>
  Claim C1, as it stands, fails where the request does not pass validation: tenant A names
  session 1, which belongs to tenant B, in a \<^verbatim>\<open>POST /api/chat/message\<close> with an empty
  message, and is answered 400, not 404.
\<close>

theorem foreign_session_empty_message_counterexample:
  "\<not> owns demoState tenantA 1 \<and>
   serve ChatMessage (demoEnv (Inl OracleError) (Inl OracleError))
     (demoRequest (Single ''key-a'') 1 []) demoState =
   (Response 400 (ErrorBody ''sessionId and message are required''),
    demoState\<lparr>storeCalls := [ApiKey_findUnique ''key-a'']\<rparr>)"
  by (simp add: owns_def authenticateApiKey_def apiKey_findUnique_def storeCall_def
      chatMessage_def demoState_def demoEnv_def demoRequest_def tenantA_def tenantB_def)

text \<open>
  Claim C1, amended. The tenant \<open>k\<close> has been authenticated and does not own a session
  with the id \<open>i\<close>: there is none, or it belongs to another tenant. The lookup itself does
  not fail. Then \<^verbatim>\<open>GET /api/chat/:sessionId\<close> for \<open>i\<close>, and
  \<^verbatim>\<open>POST /api/chat/message\<close> for \<open>i\<close> with a body that passes validation (\<open>i\<close> is not 0,
  the message is not empty), are answered 404 with one and the same body. The state
  afterwards is the state before with one more store call in the log, the lookup filtered
  by the id and the tenant: no table has changed, no other row was asked for and the
  Oracle was not called.
\<close>

theorem foreign_session_not_found:
  assumes "\<not> owns s k i" "\<not> faultAt e (length (storeCalls s))"
  shows "(param_sessionId req = i \<longrightarrow>
            chatHistory e req k s =
              (Response 404 (ErrorBody ''Session not found or unauthorized''),
               s\<lparr>storeCalls := storeCalls s @ [ChatSession_findFirst i (id_k k)]\<rparr>)) \<and>
         (body_sessionId req = Some i \<and> i \<noteq> 0 \<and> body_message req = Some m \<and> m \<noteq> [] \<longrightarrow>
            chatMessage e req k s =
              (Response 404 (ErrorBody ''Session not found or unauthorized''),
               s\<lparr>storeCalls := storeCalls s @ [ChatSession_findFirst i (id_k k)]\<rparr>))"
  using not_owns_find[OF assms(1)] assms(2)
  by (simp add: chatHistory_def chatMessage_def await_def resolve_def chatSession_findFirst_ok)

theorem foreign_session_not_found_witness:
  "\<not> owns demoState tenantA 1 \<and> \<not> owns demoState tenantA 7 \<and>
   chatHistory (demoEnv (Inl OracleError) (Inl OracleError))
     (demoRequest (Single ''key-a'') 1 ''Hi'') tenantA demoState =
     (Response 404 (ErrorBody ''Session not found or unauthorized''),
      demoState\<lparr>storeCalls := [ChatSession_findFirst 1 1]\<rparr>) \<and>
   chatMessage (demoEnv (Inl OracleError) (Inl OracleError))
     (demoRequest (Single ''key-a'') 1 ''Hi'') tenantA demoState =
     (Response 404 (ErrorBody ''Session not found or unauthorized''),
      demoState\<lparr>storeCalls := [ChatSession_findFirst 1 1]\<rparr>) \<and>
   chatMessage (demoEnv (Inl OracleError) (Inl OracleError))
     (demoRequest (Single ''key-a'') 7 ''Hi'') tenantA demoState =
     (Response 404 (ErrorBody ''Session not found or unauthorized''),
      demoState\<lparr>storeCalls := [ChatSession_findFirst 7 1]\<rparr>)"
proof -
  let ?e = "demoEnv (Inl OracleError) (Inl OracleError)"
  have n: "\<not> owns demoState tenantA 1" "\<not> owns demoState tenantA 7"
    by (simp_all add: owns_def demoState_def tenantA_def)
  have f: "\<not> faultAt ?e (length (storeCalls demoState))"
    by (simp add: demoEnv_def)
  have l: "storeCalls demoState = []" "id_k tenantA = 1"
    by (simp_all add: demoState_def tenantA_def)
  from foreign_session_not_found[OF n(1) f, of "demoRequest (Single ''key-a'') 1 ''Hi''" "''Hi''"]
       foreign_session_not_found[OF n(2) f, of "demoRequest (Single ''key-a'') 7 ''Hi''" "''Hi''"]
  show ?thesis using n by (simp add: demoRequest_def l)
qed

subsection \<open>Validation\<close>

text \<open>
  Claim C8, as it stands, fails because the middleware runs before the handler: a request
  with an empty message and no key is answered 401, and one with a valid key is answered
  400 only after the key has been looked up in the store.
\<close>

theorem validation_after_authentication_counterexample:
  "serve ChatMessage (demoEnv (Inl OracleError) (Inl OracleError))
     (demoRequest Absent 2 []) demoState =
   (Response 401 (ErrorBody ''API key is missing or invalid''), demoState) \<and>
   serve ChatStart (demoEnv (Inl OracleError) (Inl OracleError))
     (demoRequest (Single ''key-a'') 2 []) demoState =
   (Response 400 (ErrorBody ''Initial message is required''),
    demoState\<lparr>storeCalls := [ApiKey_findUnique ''key-a'']\<rparr>)"
  by (simp add: authenticateApiKey_def apiKey_findUnique_def storeCall_def
      chatStart_def demoState_def demoEnv_def demoRequest_def tenantA_def tenantB_def)

text \<open>
  Claim C8, amended. Once \<^verbatim>\<open>authenticateApiKey\<close> has admitted the request with the key
  record \<open>k\<close>, the handler of \<^verbatim>\<open>POST /api/chat/start\<close> answers 400 when the message is
  missing or empty, and the handler of \<^verbatim>\<open>POST /api/chat/message\<close> answers 400 when the
  session id is missing or 0 or the message is missing or empty. Each returns the state it
  was given, logs included: the handler has issued no store call and no Oracle call, and
  has changed nothing.
\<close>

theorem validation_before_handler_store_access:
  "(body_message req = None \<or> body_message req = Some [] \<longrightarrow>
      chatStart e req k s = (Response 400 (ErrorBody ''Initial message is required''), s)) \<and>
   (body_sessionId req = None \<or> body_sessionId req = Some 0 \<or>
    body_message req = None \<or> body_message req = Some [] \<longrightarrow>
      chatMessage e req k s =
        (Response 400 (ErrorBody ''sessionId and message are required''), s))"
  by (auto simp: chatStart_def chatMessage_def split: option.splits)

theorem validation_before_handler_store_access_witness:
  "body_message (demoRequest (Single ''key-a'') 2 []) = Some [] \<and>
   chatStart (demoEnv (Inl OracleError) (Inl OracleError))
     (demoRequest (Single ''key-a'') 2 []) tenantA demoState =
     (Response 400 (ErrorBody ''Initial message is required''), demoState) \<and>
   chatMessage (demoEnv (Inl OracleError) (Inl OracleError))
     (demoRequest (Single ''key-a'') 2 []) tenantA demoState =
     (Response 400 (ErrorBody ''sessionId and message are required''), demoState)"
  using validation_before_handler_store_access
    [of "demoRequest (Single ''key-a'') 2 []" "demoEnv (Inl OracleError) (Inl OracleError)"
        tenantA demoState]
  by (simp add: demoRequest_def)

subsection \<open>Starting a session\<close>

lemma chatStart_created:
  assumes "body_message req = Some m" "m \<noteq> []" "k \<in> set (apiKeys s)"
      and "\<not> faultAt e (length (storeCalls s))"
  shows "chatStart e req k s =
     (case await (processChat e (nextId (map id_s (chatSessions s))) m) (\<lambda>botMessage.
           await (chatSession_findUnique e (nextId (map id_s (chatSessions s)))) (\<lambda>updatedSession.
           resolve (Response 200 (StartBody updatedSession botMessage))))
           (s\<lparr>chatSessions := chatSessions s @
                 [\<lparr>id_s = nextId (map id_s (chatSessions s)), title = None,
                   createdAt_s = clock s, apiKeyId = id_k k\<rparr>],
              clock := Suc (clock s),
              storeCalls := storeCalls s @ [ChatSession_create (id_k k)]\<rparr>) of
        (Inr r, s') \<Rightarrow> (r, s')
      | (Inl err, s') \<Rightarrow> (Response 500 (ErrorBody ''Failed to create session''), s'))"
  using assms
  by (simp add: chatStart_def chatSession_create_ok await_def[of "chatSession_create e (id_k k)"])

lemma nextId_fresh: "nextId ids \<notin> set ids"
  using nextId_gt[of "nextId ids" ids] by auto

lemma find_new_row:
  assumes "id_s x \<notin> id_s ` set cs"
  shows "find (\<lambda>r. id_s r = id_s x) (cs @ [x]) = Some x"
  using assms by (induction cs) auto

lemma session_row_kept:
  assumes "x \<in> set cs"
      and "cs' = cs \<or> (\<exists>t. cs' = map (\<lambda>r. if id_s r = i then r\<lparr>title := Some t\<rparr> else r) cs)"
  shows "\<exists>y \<in> set cs'. id_s y = id_s x \<and> apiKeyId y = apiKeyId x \<and> createdAt_s y = createdAt_s x"
  using assms(2)
proof
  assume "cs' = cs"
  with assms(1) show ?thesis by blast
next
  assume "\<exists>t. cs' = map (\<lambda>r. if id_s r = i then r\<lparr>title := Some t\<rparr> else r) cs"
  then obtain t where cs': "cs' = map (\<lambda>r. if id_s r = i then r\<lparr>title := Some t\<rparr> else r) cs"
    by blast
  from retitled_member[OF assms(1), of i t]
  have "(if id_s x = i then x\<lparr>title := Some t\<rparr> else x) \<in> set cs'" by (simp only: cs')
  then show ?thesis by (intro bexI[of _ "if id_s x = i then x\<lparr>title := Some t\<rparr> else x"]) simp_all
qed

text \<open>
  Claim C9. \<^verbatim>\<open>POST /api/chat/start\<close> with a non-empty message, by an authenticated
  tenant whose key record is in the store, in a consistent state; the insertion of the
  session (the first store call) does not fail. Then the session gets an id that no session
  had before, and whatever happens next, in any surroundings, a row with this id, owned by
  the tenant, is in the table afterwards; the answer is either 200 with session and
  message, or 500 with the fixed body \<^verbatim>\<open>Failed to create session\<close>, which carries no id.
  In particular, on a reliable store where the reply call of the Oracle rejects, the
  answer is that 500, the session row is stored with a non-empty title, and the message
  table has grown by exactly the user turn of the new session.
\<close>

theorem start_failure_keeps_session:
  assumes "consistent s" "body_message req = Some m" "m \<noteq> []" "k \<in> set (apiKeys s)"
      and "\<not> faultAt e (length (storeCalls s))"
      and "chatStart e req k s = (out, s')"
  shows "nextId (map id_s (chatSessions s)) \<notin> id_s ` set (chatSessions s) \<and>
         (\<exists>x \<in> set (chatSessions s').
            id_s x = nextId (map id_s (chatSessions s)) \<and> apiKeyId x = id_k k) \<and>
         ((\<exists>u b. out = Response 200 (StartBody u b)) \<or>
          out = Response 500 (ErrorBody ''Failed to create session'')) \<and>
         (reliable e \<and> chatSend e [] m = Inl err \<longrightarrow>
            out = Response 500 (ErrorBody ''Failed to create session'') \<and>
            (\<exists>t. t \<noteq> [] \<and>
               \<lparr>id_s = nextId (map id_s (chatSessions s)), title = Some t,
                createdAt_s = clock s, apiKeyId = id_k k\<rparr> \<in> set (chatSessions s')) \<and>
            messages s' = messages s @
               [\<lparr>id_m = nextId (map id_m (messages s)),
                 chatSessionId = nextId (map id_s (chatSessions s)), content = m,
                 sender = ''user'', createdAt_m = Suc (clock s)\<rparr>])"
proof -
  define new where "new = nextId (map id_s (chatSessions s))"
  define row where "row = \<lparr>id_s = new, title = None, createdAt_s = clock s, apiKeyId = id_k k\<rparr>"
  define s1 where "s1 = s\<lparr>chatSessions := chatSessions s @ [row], clock := Suc (clock s),
                           storeCalls := storeCalls s @ [ChatSession_create (id_k k)]\<rparr>"
  have fresh: "new \<notin> id_s ` set (chatSessions s)"
    using nextId_fresh[of "map id_s (chatSessions s)"] by (simp add: new_def)
  have s1: "chatSessions s1 = chatSessions s @ [row]" "messages s1 = messages s"
    "clock s1 = Suc (clock s)" "id_s row = new" "title row = None"
    by (simp_all add: s1_def row_def)
  have c1: "consistent s1"
    by (rule consistent_session_added[OF assms(1), of s1 row]) (simp_all add: s1 new_def)
  obtain r1 s2 where run: "processChat e new m s1 = (r1, s2)"
    by (cases "processChat e new m s1")
  have start: "chatStart e req k s =
     (case await (processChat e new m) (\<lambda>botMessage.
           await (chatSession_findUnique e new) (\<lambda>updatedSession.
           resolve (Response 200 (StartBody updatedSession botMessage)))) s1 of
        (Inr r, s') \<Rightarrow> (r, s')
      | (Inl err, s') \<Rightarrow> (Response 500 (ErrorBody ''Failed to create session''), s'))"
    unfolding new_def s1_def row_def by (rule chatStart_created[OF assms(2-5)])
  from processChat_effect[OF run]
  have "chatSessions s2 = chatSessions s1 \<or>
        (\<exists>t. chatSessions s2 =
           map (\<lambda>r. if id_s r = new then r\<lparr>title := Some t\<rparr> else r) (chatSessions s1))"
    by blast
  from session_row_kept[OF _ this, of row]
  have kept2: "\<exists>y \<in> set (chatSessions s2). id_s y = new \<and> apiKeyId y = id_k k"
    by (auto simp: s1 row_def)
  have general: "(\<exists>x \<in> set (chatSessions s'). id_s x = new \<and> apiKeyId x = id_k k) \<and>
         ((\<exists>u b. out = Response 200 (StartBody u b)) \<or>
          out = Response 500 (ErrorBody ''Failed to create session''))"
  proof (cases r1)
    case (Inl err1)
    with assms(6) run have "out = Response 500 (ErrorBody ''Failed to create session'')" "s' = s2"
      by (simp_all add: start await_def)
    with kept2 show ?thesis by simp
  next
    case (Inr b)
    obtain r3 s3 where again: "chatSession_findUnique e new s2 = (r3, s3)"
      by (cases "chatSession_findUnique e new s2")
    from chatSession_findUnique_effect[OF again] have same: "chatSessions s3 = chatSessions s2"
      by (simp add: sameTables_def)
    from assms(6) run Inr again have "s' = s3"
      "(\<exists>u b. out = Response 200 (StartBody u b)) \<or>
          out = Response 500 (ErrorBody ''Failed to create session'')"
      by (auto simp: start await_def resolve_def split: sum.splits)
    with kept2 same show ?thesis by simp
  qed
  have special: "out = Response 500 (ErrorBody ''Failed to create session'') \<and>
            (\<exists>t. t \<noteq> [] \<and> row\<lparr>title := Some t\<rparr> \<in> set (chatSessions s')) \<and>
            messages s' = messages s @ [newMessage s1 m ''user'' new]"
    if rel: "reliable e" and rej: "chatSend e [] m = Inl err"
  proof -
    define T where "T = (case genContent e [\<lparr>role = ''user'', parts = [titlePrompt m]\<rparr>] of
              Inl _ \<Rightarrow> ''New Chat'' | Inr t \<Rightarrow> orElse (map_option trim t) ''New Chat'')"
    have "''New Chat'' \<noteq> []" by simp
    then have T: "T \<noteq> []"
      unfolding T_def by (simp add: orElse_nonempty split: sum.split)
    have i: "new \<in> id_s ` set (chatSessions s1)" by (simp add: s1)
    have "\<forall>x \<in> set (messages s). chatSessionId x \<noteq> new"
      using assms(1) fresh unfolding consistent_def by blast
    then have none: "turnsOf s1 new = []"
      by (simp add: turnsOf_def s1 filter_empty_conv)
    have "find (\<lambda>r. id_s r = new) (chatSessions s1) = Some row"
      using find_new_row[of row "chatSessions s"] fresh by (simp add: s1)
    then have u: "untitled (find (\<lambda>r. id_s r = new) (chatSessions s1))"
      by (simp add: untitled_def s1)
    from rej none have rej': "chatSend e (map toContent (turnsOf s1 new)) m = Inl err" by simp
    from processChat_rejected[OF rel c1 i rej' T_def[symmetric]] run u
    have r1: "r1 = Inl err"
      and cs2: "chatSessions s2 =
        map (\<lambda>r. if id_s r = new then r\<lparr>title := Some T\<rparr> else r) (chatSessions s1)"
      and ms2: "messages s2 = messages s1 @ [newMessage s1 m ''user'' new]"
      by (auto simp only: if_True)
    from assms(6) run r1 have out: "out = Response 500 (ErrorBody ''Failed to create session'')"
      and "s' = s2"
      by (simp_all add: start await_def)
    moreover from retitled_member[of row "chatSessions s1" new T]
    have "row\<lparr>title := Some T\<rparr> \<in> set (chatSessions s2)"
      by (simp only: cs2) (simp add: s1)
    ultimately show ?thesis using T ms2 s1(2) by auto
  qed
  have "reliable e \<and> chatSend e [] m = Inl err \<longrightarrow>
            out = Response 500 (ErrorBody ''Failed to create session'') \<and>
            (\<exists>t. t \<noteq> [] \<and>
               \<lparr>id_s = new, title = Some t, createdAt_s = clock s, apiKeyId = id_k k\<rparr>
                 \<in> set (chatSessions s')) \<and>
            messages s' = messages s @
               [\<lparr>id_m = nextId (map id_m (messages s)), chatSessionId = new, content = m,
                 sender = ''user'', createdAt_m = Suc (clock s)\<rparr>]"
    using special by (simp add: row_def newMessage_def s1)
  with general fresh show ?thesis unfolding new_def by simp
qed

theorem start_failure_keeps_session_witness:
  "consistent demoState \<and> tenantA \<in> set (apiKeys demoState) \<and>
   reliable (demoEnv (Inr (Some ''Plan'')) (Inl OracleError)) \<and>
   (\<exists>s'. chatStart (demoEnv (Inr (Some ''Plan'')) (Inl OracleError))
            (demoRequest (Single ''key-a'') 0 ''Hi'') tenantA demoState =
            (Response 500 (ErrorBody ''Failed to create session''), s') \<and>
          (\<exists>t. t \<noteq> [] \<and>
             \<lparr>id_s = 3, title = Some t, createdAt_s = 6, apiKeyId = 1\<rparr> \<in> set (chatSessions s')) \<and>
          messages s' = messages demoState @
            [\<lparr>id_m = 3, chatSessionId = 3, content = ''Hi'', sender = ''user'', createdAt_m = 7\<rparr>])"
proof -
  let ?e = "demoEnv (Inr (Some ''Plan'')) (Inl OracleError)"
  let ?req = "demoRequest (Single ''key-a'') 0 ''Hi''"
  have k: "tenantA \<in> set (apiKeys demoState)" by (simp add: demoState_def)
  have f: "\<not> faultAt ?e (length (storeCalls demoState))" by (simp add: demoEnv_def)
  have b: "body_message ?req = Some ''Hi''" by (simp add: demoRequest_def)
  have o: "chatSend ?e [] ''Hi'' = Inl OracleError" by (simp add: demoEnv_def)
  have v: "nextId (map id_s (chatSessions demoState)) = 3"
    "nextId (map id_m (messages demoState)) = 3" "clock demoState = 6" "id_k tenantA = 1"
    by (simp_all add: nextId_def demoState_def tenantA_def)
  obtain out s' where run: "chatStart ?e ?req tenantA demoState = (out, s')"
    by (cases "chatStart ?e ?req tenantA demoState")
  have ne: "''Hi'' \<noteq> []" by simp
  have rel: "reliable ?e" by (rule reliable_demoEnv)
  note th = start_failure_keeps_session[OF consistent_demoState b ne k f run, of OracleError]
  from th[THEN conjunct2, THEN conjunct2, THEN conjunct2, THEN mp, OF conjI[OF rel o]]
  have "out = Response 500 (ErrorBody ''Failed to create session'') \<and>
        (\<exists>t. t \<noteq> [] \<and> \<lparr>id_s = 3, title = Some t, createdAt_s = 6, apiKeyId = 1\<rparr> \<in> set (chatSessions s')) \<and>
        messages s' = messages demoState @
            [\<lparr>id_m = 3, chatSessionId = 3, content = ''Hi'', sender = ''user'', createdAt_m = 7\<rparr>]"
    by (simp add: v)
  with run consistent_demoState k reliable_demoEnv show ?thesis by simp
qed

end
